theory Spec2Isabelle
  imports Main
begin

section \<open>Strings and the regular expressions of the sources\<close>

text \<open>
  JavaScript strings are sequences of code units; the model uses \<open>string\<close> and reads
  each \<open>char\<close> as one code unit below 256. The character classes are those of the
  regular expressions in \<^verbatim>\<open>sw.js\<close> and \<^verbatim>\<open>BaseComponent.ts\<close>.
\<close>

definition is_digit :: "char \<Rightarrow> bool" where
  \<comment> \<open>\<^verbatim>\<open>\d\<close>\<close>
  "is_digit c = ((48::nat) \<le> of_char c \<and> (of_char c :: nat) \<le> 57)"

definition startsWith :: "string \<Rightarrow> string \<Rightarrow> bool" where
  \<comment> \<open>\<^verbatim>\<open>String.prototype.startsWith\<close>\<close>
  "startsWith s p = (take (length p) s = p)"

section \<open>The offline cache worker (sw.js)\<close>

subsection \<open>Cache storage, requests and the network\<close>

datatype response = Response string

record request =
  url :: string

text \<open>
  A cache bucket maps a request URL to the stored response. The cache storage keeps its
  buckets in creation order, which is the order \<^verbatim>\<open>caches.keys()\<close> lists them and
  \<^verbatim>\<open>caches.match\<close> searches them.
\<close>

type_synonym cache = "string \<rightharpoonup> response"
type_synonym cache_storage = "(string \<times> cache) list"

datatype sw_effect =
    CachesOpen string
  | CachesKeys
  | CachesDelete string
  | CachesMatch string
  | CacheMatch string string
  | CachePut string string response
  | CacheAddAll string "string list"
  | Fetch request

record sw_state =
  caches :: cache_storage
  log :: "sw_effect list"

text \<open>
  What the worker reads from its platform: its own origin, the parts of a parsed URL
  (\<^verbatim>\<open>new URL(u).origin\<close>, \<^verbatim>\<open>new URL(u).pathname\<close>) and the network, where
  \<open>None\<close> is a fetch that fails.
\<close>

record sw_env =
  location_origin :: string
  url_origin :: "string \<Rightarrow> string"
  url_pathname :: "string \<Rightarrow> string"
  network :: "request \<Rightarrow> response option"

text \<open>
  A promise settles with a response, with \<^verbatim>\<open>undefined\<close> (\<open>Fulfilled None\<close>), or rejects.
  The promise chain of a listener is run to its end, step by step in the order of the
  source; a \<^verbatim>\<open>cache.put\<close> the code does not wait for counts as done when the listener
  has answered. Requests that overlap in time are not modelled.
\<close>

datatype settled = Fulfilled "response option" | Rejected

definition emit_sw :: "sw_effect \<Rightarrow> sw_state \<Rightarrow> sw_state" where
  "emit_sw e st = st\<lparr>log := log st @ [e]\<rparr>"

definition caches_open :: "string \<Rightarrow> sw_state \<Rightarrow> sw_state" where
  \<comment> \<open>\<^verbatim>\<open>caches.open(name)\<close> creates the bucket when it does not exist\<close>
  "caches_open name st =
     emit_sw (CachesOpen name)
       (if name \<in> set (map fst (caches st)) then st
        else st\<lparr>caches := caches st @ [(name, Map.empty)]\<rparr>)"

definition bucket :: "cache_storage \<Rightarrow> string \<Rightarrow> cache" where
  "bucket cs name = (case map_of cs name of None \<Rightarrow> Map.empty | Some b \<Rightarrow> b)"

definition cache_match :: "string \<Rightarrow> string \<Rightarrow> sw_state \<Rightarrow> response option \<times> sw_state" where
  \<comment> \<open>\<^verbatim>\<open>cache.match(key)\<close> on the bucket \<open>name\<close>\<close>
  "cache_match name key st = (bucket (caches st) name key, emit_sw (CacheMatch name key) st)"

definition cache_put :: "string \<Rightarrow> string \<Rightarrow> response \<Rightarrow> sw_state \<Rightarrow> sw_state" where
  \<comment> \<open>\<^verbatim>\<open>cache.put(key, response)\<close> on the bucket \<open>name\<close>\<close>
  "cache_put name key r st =
     emit_sw (CachePut name key r)
       (st\<lparr>caches := map (\<lambda>(n, b). if n = name then (n, b(key \<mapsto> r)) else (n, b)) (caches st)\<rparr>)"

fun storage_match :: "cache_storage \<Rightarrow> string \<Rightarrow> response option" where
  "storage_match [] key = None"
| "storage_match ((n, b) # cs) key =
     (case b key of Some r \<Rightarrow> Some r | None \<Rightarrow> storage_match cs key)"

definition caches_match :: "string \<Rightarrow> sw_state \<Rightarrow> response option \<times> sw_state" where
  \<comment> \<open>\<^verbatim>\<open>caches.match(key)\<close>: the first bucket that holds the key\<close>
  "caches_match key st = (storage_match (caches st) key, emit_sw (CachesMatch key) st)"

definition caches_delete :: "string \<Rightarrow> sw_state \<Rightarrow> sw_state" where
  "caches_delete name st =
     emit_sw (CachesDelete name) (st\<lparr>caches := filter (\<lambda>(n, b). n \<noteq> name) (caches st)\<rparr>)"

definition fetch :: "sw_env \<Rightarrow> request \<Rightarrow> sw_state \<Rightarrow> response option \<times> sw_state" where
  "fetch env req st = (network env req, emit_sw (Fetch req) st)"

subsection \<open>Constants and lifecycle listeners\<close>

definition staticCacheName :: string where
  "staticCacheName = ''basic-static-v1''"

definition contentImgsCache :: string where
  "contentImgsCache = ''basic-content-imgs''"

definition allCaches :: "string list" where
  "allCaches = [staticCacheName, contentImgsCache]"

definition install :: "sw_state \<Rightarrow> sw_state" where
  \<comment> \<open>\<^verbatim>\<open>caches.open(staticCacheName).then(cache => cache.addAll([]))\<close>\<close>
  "install st = emit_sw (CacheAddAll staticCacheName []) (caches_open staticCacheName st)"

definition stale :: "string \<Rightarrow> bool" where
  \<comment> \<open>the filter of the activate listener\<close>
  "stale cacheName = (startsWith cacheName ''basic-'' \<and> cacheName \<notin> set allCaches)"

definition activate :: "sw_state \<Rightarrow> sw_state" where
  "activate st =
     (let st1 = emit_sw CachesKeys st;
          cacheNames = map fst (caches st1)
      in fold caches_delete (filter stale cacheNames) st1)"

subsection \<open>Key normalisation\<close>

text \<open>
  \<^verbatim>\<open>request.url.replace(/-\d+px\.jpg$/, '')\<close>: the pattern is anchored at the end of the
  string, so a match at position \<open>i\<close> is the whole rest of the string from \<open>i\<close>, and
  replacing the leftmost match by the empty string keeps the characters before it.
  \<open>\d\<close> and the character after the digits are disjoint, so the greedy run of digits is
  the only candidate.
\<close>

definition img_suffix :: "string \<Rightarrow> bool" where
  \<comment> \<open>the whole string matches \<^verbatim>\<open>-\d+px\.jpg\<close>\<close>
  "img_suffix s =
     (case s of
        [] \<Rightarrow> False
      | c # r \<Rightarrow> c = CHR ''-'' \<and> takeWhile is_digit r \<noteq> [] \<and> dropWhile is_digit r = ''px.jpg'')"

fun strip_img_suffix :: "string \<Rightarrow> string" where
  "strip_img_suffix [] = []"
| "strip_img_suffix (c # cs) = (if img_suffix (c # cs) then [] else c # strip_img_suffix cs)"

definition script_suffix :: "string \<Rightarrow> bool" where
  \<comment> \<open>the whole string matches \<^verbatim>\<open>-\dx\.js\<close>\<close>
  "script_suffix s =
     (case s of
        c # d # r \<Rightarrow> c = CHR ''-'' \<and> is_digit d \<and> r = ''x.js''
      | _ \<Rightarrow> False)"

fun strip_script_suffix :: "string \<Rightarrow> string" where
  "strip_script_suffix [] = []"
| "strip_script_suffix (c # cs) =
     (if script_suffix (c # cs) then [] else c # strip_script_suffix cs)"

subsection \<open>Serving strategies and the fetch listener\<close>

definition serveImg :: "sw_env \<Rightarrow> request \<Rightarrow> sw_state \<Rightarrow> settled \<times> sw_state" where
  "serveImg env req st =
     (let storageUrl = strip_img_suffix (url req);
          st1 = caches_open contentImgsCache st;
          (response, st2) = cache_match contentImgsCache storageUrl st1
      in case response of
           Some r \<Rightarrow> (Fulfilled (Some r), st2)
         | None \<Rightarrow>
             (let (fetched, st3) = fetch env req st2
              in case fetched of
                   None \<Rightarrow> (Rejected, st3)
                 | Some networkResponse \<Rightarrow>
                     (Fulfilled (Some networkResponse),
                      cache_put contentImgsCache storageUrl networkResponse st3)))"

definition serveScript :: "sw_env \<Rightarrow> request \<Rightarrow> sw_state \<Rightarrow> settled \<times> sw_state" where
  \<comment> \<open>the result of the lookup is dropped by the second \<^verbatim>\<open>then\<close>, which takes no argument\<close>
  "serveScript env req st =
     (let storageUrl = strip_script_suffix (url req);
          st1 = caches_open contentImgsCache st;
          (response, st2) = cache_match contentImgsCache storageUrl st1;
          (fetched, st3) = fetch env req st2
      in case fetched of
           None \<Rightarrow> (Rejected, st3)
         | Some networkResponse \<Rightarrow>
             (Fulfilled (Some networkResponse),
              cache_put contentImgsCache storageUrl networkResponse st3))"

definition skeleton_key :: "sw_env \<Rightarrow> string" where
  \<comment> \<open>\<^verbatim>\<open>'/skeleton'\<close> resolved against the worker's own origin\<close>
  "skeleton_key env = location_origin env @ ''/skeleton''"

definition fetch_listener :: "sw_env \<Rightarrow> request \<Rightarrow> sw_state \<Rightarrow> settled \<times> sw_state" where
  "fetch_listener env req st =
     (let origin = url_origin env (url req); pathname = url_pathname env (url req);
          fallback =
            (let (response, st1) = caches_match (url req) st
             in case response of
                  Some r \<Rightarrow> (Fulfilled (Some r), st1)
                | None \<Rightarrow>
                    (let (fetched, st2) = fetch env req st1
                     in case fetched of
                          None \<Rightarrow> (Rejected, st2)
                        | Some r \<Rightarrow> (Fulfilled (Some r), st2)))
      in if origin = location_origin env then
           if pathname = ''/'' then
             (let (response, st1) = caches_match (skeleton_key env) st
              in (Fulfilled response, st1))
           else if startsWith pathname ''/img/'' then serveImg env req st
           else if startsWith pathname ''/scripts/'' then serveScript env req st
           else fallback
         else fallback)"

definition fetches :: "sw_effect list \<Rightarrow> request list" where
  \<comment> \<open>the network fetches recorded in a log\<close>
  "fetches es = concat (map (\<lambda>e. case e of Fetch r \<Rightarrow> [r] | _ \<Rightarrow> []) es)"

definition deleted :: "sw_effect list \<Rightarrow> string list" where
  "deleted es = concat (map (\<lambda>e. case e of CachesDelete n \<Rightarrow> [n] | _ \<Rightarrow> []) es)"

section \<open>The page controller (indexController.js)\<close>

text \<open>
  The \<^verbatim>\<open>controllerchange\<close> listener of \<^verbatim>\<open>_registerServiceWorker\<close> closes over the
  variable \<^verbatim>\<open>refreshing\<close>, declared without a value (\<open>None\<close> is \<^verbatim>\<open>undefined\<close>).
  \<open>reloads\<close> counts the calls of \<^verbatim>\<open>window.location.reload()\<close>.
\<close>

record page =
  refreshing :: "bool option"
  reloads :: nat

definition page_init :: page where
  "page_init = \<lparr>refreshing = None, reloads = 0\<rparr>"

definition truthy_flag :: "bool option \<Rightarrow> bool" where
  "truthy_flag f = (f = Some True)"

definition controllerchange :: "page \<Rightarrow> page" where
  "controllerchange p =
     (if truthy_flag (refreshing p) then p
      else p\<lparr>reloads := reloads p + 1, refreshing := Some True\<rparr>)"

definition deliver :: "'e list \<Rightarrow> page \<Rightarrow> page" where
  \<comment> \<open>the listener run once for each event of a sequence\<close>
  "deliver events p = fold (\<lambda>_. controllerchange) events p"

section \<open>JavaScript values\<close>

text \<open>
  Prop values are primitives. A number is \<open>NaN\<close>, an integer \<open>Num i\<close>, or any other number
  (a fraction, an infinity, an integer too large to be exact), \<open>Other s\<close>, named by its
  string form \<open>s\<close>. An integer is exact up to magnitude \<open>2^53\<close>: there the string form is the
  plain decimal numeral and a sum within the range is the sum of the integers. Beyond
  that range the string form and the sum are what the platform says. Zero and negative
  zero are both \<open>Num 0\<close>; no operation of the components tells them apart.
\<close>

datatype jsnum = NaN | Num int | Other string

datatype jsval = JUndefined | JNull | JBool bool | JNumber jsnum | JString string

text \<open>
  The props object is a plain object, so a read of a key finds the object's own property
  or else a member of \<^verbatim>\<open>Object.prototype\<close>: one of its functions, or for the key
  \<^verbatim>\<open>__proto__\<close> the prototype object itself.
\<close>

datatype jsany = Prim jsval | Member string

datatype jstype = TUndefined | TObject | TBoolean | TNumber | TString | TFunction

fun typeof :: "jsany \<Rightarrow> jstype" where
  "typeof (Prim JUndefined) = TUndefined"
| "typeof (Prim JNull) = TObject"
| "typeof (Prim (JBool b)) = TBoolean"
| "typeof (Prim (JNumber n)) = TNumber"
| "typeof (Prim (JString s)) = TString"
| "typeof (Member k) = (if k = ''__proto__'' then TObject else TFunction)"

definition Object_prototype_members :: "string list" where
  \<comment> \<open>the property names of \<^verbatim>\<open>Object.prototype\<close>\<close>
  "Object_prototype_members =
     [''constructor'', ''__defineGetter__'', ''__defineSetter__'', ''hasOwnProperty'',
      ''__lookupGetter__'', ''__lookupSetter__'', ''isPrototypeOf'', ''propertyIsEnumerable'',
      ''toString'', ''valueOf'', ''__proto__'', ''toLocaleString'']"

section \<open>The platform\<close>

text \<open>
  The shadow root is followed as the sequence of its elements in document order. An
  element is one the component created itself (the style and link elements of
  \<open>ensureStyles\<close>), or one the platform's markup parser made. Of the latter the model
  keeps what the component reads and writes: the \<^verbatim>\<open>data-bind\<close> attribute (\<open>None\<close> when
  the element has none) and the text last written to it (before any write, the text the
  parser gave it). An element keeps its text when a write to an enclosing element takes
  it out of the tree; the text of an element that was never written and encloses a
  written one is not followed.
\<close>

datatype node =
    StyleEl string
  | LinkEl string
  | Parsed "string option" string

fun bound_key :: "node \<Rightarrow> string option" where
  \<comment> \<open>\<^verbatim>\<open>el.getAttribute('data-bind')\<close>; the elements with a key are those matching \<^verbatim>\<open>[data-bind]\<close>\<close>
  "bound_key (Parsed key t) = key"
| "bound_key n = None"

fun textContent :: "node \<Rightarrow> string" where
  "textContent (Parsed key t) = t"
| "textContent (StyleEl s) = s"
| "textContent (LinkEl h) = []"

fun write_text :: "string \<Rightarrow> node \<Rightarrow> node" where
  "write_text s (Parsed key t) = Parsed key s"
| "write_text s (StyleEl t) = StyleEl s"
| "write_text s (LinkEl h) = LinkEl h"

text \<open>
  What a component takes from its platform: the conversion of a string to a number; the
  string form of an integer and the sum of two numbers outside the exact range; the
  string form of a member of \<^verbatim>\<open>Object.prototype\<close>; the page's template elements
  (\<^verbatim>\<open>document.getElementById(id).innerHTML\<close>, \<open>None\<close> when no element has the id); the
  markup of the children of the shadow root (the getter of \<^verbatim>\<open>innerHTML\<close>) and the
  markup parser (its setter), which gives the elements of the parsed fragment in document
  order.
\<close>

record platform =
  StringToNumber :: "string \<Rightarrow> jsnum"
  IntegerToString :: "int \<Rightarrow> string"
  InexactAdd :: "jsnum \<Rightarrow> jsnum \<Rightarrow> jsnum"
  MemberToString :: "string \<Rightarrow> string"
  templates :: "string \<rightharpoonup> string"
  serializeHTML :: "node list \<Rightarrow> string"
  parseHTML :: "string \<Rightarrow> node list"

definition safe :: "int \<Rightarrow> bool" where
  \<comment> \<open>the integers up to magnitude \<open>2^53\<close>\<close>
  "safe i = (- 9007199254740992 \<le> i \<and> i \<le> 9007199254740992)"

definition digit_char :: "nat \<Rightarrow> char" where
  "digit_char d = ''0123456789'' ! d"

fun nat_digits :: "nat \<Rightarrow> string" where
  "nat_digits n =
     (if n < 10 then [digit_char n] else nat_digits (n div 10) @ [digit_char (n mod 10)])"

declare nat_digits.simps [simp del]

fun num_to_string :: "platform \<Rightarrow> jsnum \<Rightarrow> string" where
  "num_to_string pf NaN = ''NaN''"
| "num_to_string pf (Num i) =
     (if safe i then (if i < 0 then CHR ''-'' # nat_digits (nat (- i)) else nat_digits (nat i))
      else IntegerToString pf i)"
| "num_to_string pf (Other s) = s"

fun String_js :: "platform \<Rightarrow> jsany \<Rightarrow> string" where
  \<comment> \<open>\<^verbatim>\<open>String(v)\<close>\<close>
  "String_js pf (Prim JUndefined) = ''undefined''"
| "String_js pf (Prim JNull) = ''null''"
| "String_js pf (Prim (JBool b)) = (if b then ''true'' else ''false'')"
| "String_js pf (Prim (JNumber n)) = num_to_string pf n"
| "String_js pf (Prim (JString s)) = s"
| "String_js pf (Member k) = MemberToString pf k"

fun Number_js :: "platform \<Rightarrow> jsval \<Rightarrow> jsnum" where
  \<comment> \<open>\<^verbatim>\<open>Number(v)\<close>\<close>
  "Number_js pf JUndefined = NaN"
| "Number_js pf JNull = Num 0"
| "Number_js pf (JBool b) = (if b then Num 1 else Num 0)"
| "Number_js pf (JNumber n) = n"
| "Number_js pf (JString s) = StringToNumber pf s"

fun num_add :: "platform \<Rightarrow> jsnum \<Rightarrow> jsnum \<Rightarrow> jsnum" where
  "num_add pf NaN b = NaN"
| "num_add pf (Num a) NaN = NaN"
| "num_add pf (Other a) NaN = NaN"
| "num_add pf (Num a) (Num b) =
     (if safe a \<and> safe b \<and> safe (a + b) then Num (a + b) else InexactAdd pf (Num a) (Num b))"
| "num_add pf (Num a) (Other b) = InexactAdd pf (Num a) (Other b)"
| "num_add pf (Other a) (Num b) = InexactAdd pf (Other a) (Num b)"
| "num_add pf (Other a) (Other b) = InexactAdd pf (Other a) (Other b)"

fun js_plus :: "platform \<Rightarrow> jsany \<Rightarrow> jsany \<Rightarrow> jsval" where
  \<comment> \<open>the operator \<^verbatim>\<open>+\<close>: concatenation when an operand is a string or an object, addition
      otherwise\<close>
  "js_plus pf (Prim (JString a)) b = JString (a @ String_js pf b)"
| "js_plus pf a (Prim (JString b)) = JString (String_js pf a @ b)"
| "js_plus pf (Prim a) (Prim b) = JNumber (num_add pf (Number_js pf a) (Number_js pf b))"
| "js_plus pf a b = JString (String_js pf a @ String_js pf b)"

fun truthy :: "jsany \<Rightarrow> bool" where
  "truthy (Prim JUndefined) = False"
| "truthy (Prim JNull) = False"
| "truthy (Prim (JBool b)) = b"
| "truthy (Prim (JNumber n)) = (n \<noteq> NaN \<and> n \<noteq> Num 0)"
| "truthy (Prim (JString s)) = (s \<noteq> [])"
| "truthy (Member k) = True"

section \<open>The component base class (BaseComponent.ts, final generation)\<close>

subsection \<open>Placeholders and markup\<close>

definition is_space :: "char \<Rightarrow> bool" where
  \<comment> \<open>\<^verbatim>\<open>\s\<close> on code units below 256\<close>
  "is_space c = ((of_char c :: nat) \<in> {9, 10, 11, 12, 13, 32, 160})"

definition is_word :: "char \<Rightarrow> bool" where
  \<comment> \<open>\<^verbatim>\<open>\w\<close>\<close>
  "is_word c =
     (let n = (of_char c :: nat)
      in (48 \<le> n \<and> n \<le> 57) \<or> (65 \<le> n \<and> n \<le> 90) \<or> n = 95 \<or> (97 \<le> n \<and> n \<le> 122))"

text \<open>
  A match of \<^verbatim>\<open>/\{\{\s*(\w+)\s*\}\}/\<close> at the start of a string: the key and the rest
  of the string after the match. The three classes \<open>\s\<close>, \<open>\w\<close> and the brace are pairwise
  disjoint, so the greedy runs are the only way to match.
\<close>

definition match_placeholder :: "string \<Rightarrow> (string \<times> string) option" where
  "match_placeholder s =
     (case s of
        c1 # c2 # r \<Rightarrow>
          if c1 = CHR ''{'' \<and> c2 = CHR ''{'' then
            (let r1 = dropWhile is_space r;
                 key = takeWhile is_word r1;
                 r2 = dropWhile is_space (dropWhile is_word r1)
             in case r2 of
                  d1 # d2 # rest \<Rightarrow>
                    if key \<noteq> [] \<and> d1 = CHR ''}'' \<and> d2 = CHR ''}'' then Some (key, rest) else None
                | _ \<Rightarrow> None)
          else None
      | _ \<Rightarrow> None)"

definition dquote :: char where
  "dquote = CHR 0x22"

definition marker :: "string \<Rightarrow> string" where
  \<comment> \<open>the replacement text, a span element carrying the key in its data-bind attribute\<close>
  "marker key = ''<span data-bind='' @ [dquote] @ key @ [dquote] @ ''></span>''"

function replace_placeholders :: "string \<Rightarrow> string" where
  \<comment> \<open>\<^verbatim>\<open>rawHtml.replace(/\{\{\s*(\w+)\s*\}\}/g, ...)\<close>\<close>
  "replace_placeholders [] = []"
| "replace_placeholders (c # cs) =
     (case match_placeholder (c # cs) of
        Some (key, rest) \<Rightarrow> marker key @ replace_placeholders rest
      | None \<Rightarrow> c # replace_placeholders cs)"
  by pat_completeness auto
termination
proof (relation "measure length")
  show "wf (measure length)" by simp
next
  fix c :: char and cs key rest x2
  assume m: "match_placeholder (c # cs) = Some x2" and x2: "(key, rest) = x2"
  then obtain r where s: "c # cs = CHR ''{'' # CHR ''{'' # r"
    and r: "dropWhile is_space (dropWhile is_word (dropWhile is_space r)) = CHR ''}'' # CHR ''}'' # rest"
    by (auto simp: match_placeholder_def Let_def split: list.splits if_splits)
  have "length (dropWhile is_space (dropWhile is_word (dropWhile is_space r))) \<le> length r"
    by (meson length_dropWhile_le order_trans)
  with r s show "(rest, c # cs) \<in> measure length" by simp
next
  fix c :: char and cs
  show "(cs, c # cs) \<in> measure length" by simp
qed


subsection \<open>State of a component\<close>

text \<open>
  The template function is one of the closures the constructor installs: the function
  passed by the caller, which is given the reads of the props, or the resolver that
  looks \<open>templateId\<close> up in the page when it is called. The props object is held as its
  own properties, with string keys, and whether its prototype is still
  \<^verbatim>\<open>Object.prototype\<close>. The effects a component has on the outside are recorded in
  \<open>effects\<close>. An element is referred to by its position among the elements of the shadow
  root. The class declares its methods on the prototype, with one exception:
  \<^verbatim>\<open>disconnectedCallback\<close> is a field holding an arrow function, an own property of each
  instance.
\<close>

datatype template_fn =
    Fn "(string \<Rightarrow> jsany) \<Rightarrow> string"
  | ResolveId

datatype template_arg =
    TemplateId string
  | TemplateFunction "(string \<Rightarrow> jsany) \<Rightarrow> string"

datatype effect =
    ConsoleWarn string
  | TemplateCalled
  | ElementAppended node
  | MarkupInserted string
  | TextContentSet nat string
  | EventDispatched string jsany

record component =
  props :: "string \<rightharpoonup> jsval"
  propsInherit :: bool
  templateFn :: "template_fn option"
  templateId :: "string option"
  initialized :: bool
  bindings :: "(string \<times> nat list) list"
  styles :: "string list option"
  stylesIsPath :: "string set"
  styleAdded :: "string set"
  shadowRoot :: "node list option"
  effects :: "effect list"

definition prototype_methods :: "string list" where
  \<comment> \<open>the methods of the class body, which are the properties of its prototype; the
      prototypes above it, of the platform's element classes, have no lifecycle callback\<close>
  "prototype_methods =
     [''constructor'', ''useTemplateById'', ''connectedCallback'', ''attributeChangedCallback'',
      ''setProp'', ''emit'', ''ensureStyles'', ''render'', ''updateBindings'', ''bindActions'']"

definition content :: "component \<Rightarrow> node list" where
  \<comment> \<open>the elements of the shadow root\<close>
  "content c = (case shadowRoot c of None \<Rightarrow> [] | Some sh \<Rightarrow> sh)"

definition object_get :: "(string \<rightharpoonup> jsval) \<Rightarrow> bool \<Rightarrow> string \<Rightarrow> jsany" where
  \<comment> \<open>a read of a key of a plain object: the own property, else the member inherited from
      \<^verbatim>\<open>Object.prototype\<close> (while that is the prototype), else \<^verbatim>\<open>undefined\<close>\<close>
  "object_get own inherit key =
     (case own key of
        Some v \<Rightarrow> Prim v
      | None \<Rightarrow>
          if inherit \<and> key \<in> set Object_prototype_members then Member key
          else Prim JUndefined)"

definition prop_get :: "component \<Rightarrow> string \<Rightarrow> jsany" where
  \<comment> \<open>\<^verbatim>\<open>this.props[key]\<close>\<close>
  "prop_get c key = object_get (props c) (propsInherit c) key"

definition display :: "platform \<Rightarrow> jsany \<Rightarrow> string" where
  \<comment> \<open>\<^verbatim>\<open>v == null ? '' : String(v)\<close>\<close>
  "display pf v = (if v = Prim JUndefined \<or> v = Prim JNull then [] else String_js pf v)"

definition bindings_get :: "(string \<times> nat list) list \<Rightarrow> string \<Rightarrow> nat list" where
  \<comment> \<open>\<^verbatim>\<open>this.bindings.get(key) || []\<close>\<close>
  "bindings_get bs key = (case map_of bs key of None \<Rightarrow> [] | Some els \<Rightarrow> els)"

definition bindings_push :: "string \<Rightarrow> nat \<Rightarrow> (string \<times> nat list) list \<Rightarrow> (string \<times> nat list) list" where
  \<comment> \<open>\<^verbatim>\<open>if (!bindings.has(key)) bindings.set(key, []); bindings.get(key).push(el)\<close>\<close>
  "bindings_push key el bs =
     (if key \<in> set (map fst bs)
      then map (\<lambda>(k, els). if k = key then (k, els @ [el]) else (k, els)) bs
      else bs @ [(key, [el])])"

definition set_textContent :: "string \<Rightarrow> nat \<Rightarrow> component \<Rightarrow> component" where
  \<comment> \<open>\<^verbatim>\<open>el.textContent = s\<close> for the element at position \<open>el\<close>\<close>
  "set_textContent s el c =
     c\<lparr>shadowRoot := map_option (\<lambda>sh. sh[el := write_text s (sh ! el)]) (shadowRoot c),
       effects := effects c @ [TextContentSet el s]\<rparr>"

definition update_els :: "platform \<Rightarrow> string \<Rightarrow> nat list \<Rightarrow> component \<Rightarrow> component" where
  \<comment> \<open>\<^verbatim>\<open>for (const el of els) el.textContent = v == null ? '' : String(v)\<close>\<close>
  "update_els pf key els c = fold (set_textContent (display pf (prop_get c key))) els c"

definition update_all :: "platform \<Rightarrow> component \<Rightarrow> component" where
  \<comment> \<open>the loop over \<^verbatim>\<open>this.bindings.entries()\<close>\<close>
  "update_all pf c = fold (\<lambda>(key, els). update_els pf key els) (bindings c) c"

subsection \<open>Operations\<close>

definition updateBindings :: "platform \<Rightarrow> string option \<Rightarrow> component \<Rightarrow> component" where
  \<comment> \<open>\<^verbatim>\<open>if (key)\<close> fails for the empty string as for a missing argument\<close>
  "updateBindings pf key c =
     (if shadowRoot c = None \<or> \<not> initialized c then c
      else case key of
             None \<Rightarrow> update_all pf c
           | Some k \<Rightarrow> if k \<noteq> [] then update_els pf k (bindings_get (bindings c) k) c
                       else update_all pf c)"

definition reflect_set :: "string \<Rightarrow> jsval \<Rightarrow> component \<Rightarrow> component" where
  \<comment> \<open>\<^verbatim>\<open>Reflect.set(target, prop, value)\<close> on the props object, for a primitive value. A key
      without an own property is looked up in the prototype: \<^verbatim>\<open>__proto__\<close> is an accessor
      there, whose setter takes \<^verbatim>\<open>null\<close> as the new prototype and ignores any other
      primitive; every other member is a writable data property, so the assignment makes
      an own property, as it does for a key found nowhere\<close>
  "reflect_set prop v c =
     (if props c prop = None \<and> propsInherit c \<and> prop = ''__proto__''
      then (if v = JNull then c\<lparr>propsInherit := False\<rparr> else c)
      else c\<lparr>props := (props c)(prop \<mapsto> v)\<rparr>)"

definition proxy_set :: "platform \<Rightarrow> string \<Rightarrow> jsval \<Rightarrow> component \<Rightarrow> component" where
  \<comment> \<open>the \<^verbatim>\<open>set\<close> trap of the props proxy, for a string key\<close>
  "proxy_set pf prop v c =
     (let c1 = reflect_set prop v c
      in if initialized c1 then updateBindings pf (Some prop) c1 else c1)"

definition to_lower :: "char \<Rightarrow> char" where
  "to_lower c =
     (if 65 \<le> (of_char c :: nat) \<and> (of_char c :: nat) \<le> 90 then char_of (of_char c + (32::nat))
      else c)"

definition endsWith :: "string \<Rightarrow> string \<Rightarrow> bool" where
  "endsWith s p = (length p \<le> length s \<and> drop (length s - length p) s = p)"

definition pathRegex :: "string \<Rightarrow> bool" where
  \<comment> \<open>\<^verbatim>\<open>/(^\.\/|^\/|\.css$|^https?:\/\/)/i.test(s)\<close>\<close>
  "pathRegex s =
     (startsWith s ''./'' \<or> startsWith s ''/'' \<or> endsWith (map to_lower s) ''.css''
      \<or> startsWith (map to_lower s) ''http://'' \<or> startsWith (map to_lower s) ''https://'')"

definition BaseComponent ::
  "platform \<Rightarrow> template_arg option \<Rightarrow> (string \<times> jsval) list option \<Rightarrow> string list option
   \<Rightarrow> component" where
  "BaseComponent pf template initialProps styles0 =
     (let c0 = \<lparr>props = Map.empty, propsInherit = True, templateFn = None, templateId = None,
                initialized = False, bindings = [], styles = None, stylesIsPath = {},
                styleAdded = {}, shadowRoot = Some [], effects = []\<rparr>;
          c1 = (case styles0 of
                  None \<Rightarrow> c0
                | Some ss \<Rightarrow>
                    if ss \<noteq> [] then
                      (let kept = filter (\<lambda>s. s \<noteq> []) ss
                       in c0\<lparr>styles := Some kept, stylesIsPath := set (filter pathRegex kept)\<rparr>)
                    else c0);
          c2 = (case initialProps of
                  None \<Rightarrow> c1
                | Some ps \<Rightarrow> fold (\<lambda>(k, v). proxy_set pf k v) ps c1)
      in case template of
           Some (TemplateId i) \<Rightarrow> c2\<lparr>templateId := Some i, templateFn := Some ResolveId\<rparr>
         | Some (TemplateFunction f) \<Rightarrow> c2\<lparr>templateFn := Some (Fn f)\<rparr>
         | None \<Rightarrow> c2)"

definition disconnectedCallback :: "component \<Rightarrow> component" where
  \<comment> \<open>a call of the function held in the field\<close>
  "disconnectedCallback c =
     (if shadowRoot c \<noteq> None
      then c\<lparr>shadowRoot := Some [], initialized := False, bindings := [], styleAdded := {}\<rparr>
      else c)"

definition add_style :: "string \<Rightarrow> component \<Rightarrow> component" where
  \<comment> \<open>one turn of the loop of \<open>ensureStyles\<close>\<close>
  "add_style s c =
     (if s \<in> styleAdded c then c
      else (let el = (if s \<in> stylesIsPath c then LinkEl s else StyleEl s)
            in c\<lparr>shadowRoot := map_option (\<lambda>sh. sh @ [el]) (shadowRoot c),
                 styleAdded := insert s (styleAdded c),
                 effects := effects c @ [ElementAppended el]\<rparr>))"

definition ensureStyles :: "component \<Rightarrow> component" where
  "ensureStyles c =
     (if shadowRoot c = None then c
      else case styles c of None \<Rightarrow> c | Some ss \<Rightarrow> fold add_style ss c)"

definition call_templateFn :: "platform \<Rightarrow> template_fn \<Rightarrow> component \<Rightarrow> string \<times> component" where
  \<comment> \<open>\<^verbatim>\<open>this.templateFn({ props: this.props })\<close>\<close>
  "call_templateFn pf tf c =
     (let c1 = c\<lparr>effects := effects c @ [TemplateCalled]\<rparr>
      in case tf of
           Fn f \<Rightarrow> (f (prop_get c), c1)
         | ResolveId \<Rightarrow>
             (let i = (case templateId c of None \<Rightarrow> [] | Some t \<Rightarrow> t)
              in case templates pf i of
                   Some html \<Rightarrow> (html, c1)
                 | None \<Rightarrow>
                     ([], c1\<lparr>effects := effects c1 @
                        [ConsoleWarn (''BaseComponent: template with id '' @ [dquote] @ i @
                           [dquote] @ '' not found.'')]\<rparr>)))"

definition rawHtml :: "platform \<Rightarrow> component \<Rightarrow> string" where
  \<comment> \<open>the markup the template function of a component returns, empty without a template\<close>
  "rawHtml pf c = (case templateFn c of None \<Rightarrow> [] | Some tf \<Rightarrow> fst (call_templateFn pf tf c))"

definition insert_markup :: "platform \<Rightarrow> string \<Rightarrow> component \<Rightarrow> component" where
  \<comment> \<open>\<^verbatim>\<open>this.shadowRoot.innerHTML += processed\<close>: the markup of the present children,
      followed by the new markup, is parsed and replaces the children\<close>
  "insert_markup pf processed c =
     c\<lparr>shadowRoot := map_option (\<lambda>sh. parseHTML pf (serializeHTML pf sh @ processed))
                       (shadowRoot c),
       effects := effects c @ [MarkupInserted processed]\<rparr>"

definition boundEls :: "node list \<Rightarrow> nat list" where
  \<comment> \<open>\<^verbatim>\<open>querySelectorAll('[data-bind]')\<close>, in document order\<close>
  "boundEls sh = filter (\<lambda>i. bound_key (sh ! i) \<noteq> None) [0..<length sh]"

definition bind_el :: "platform \<Rightarrow> nat \<Rightarrow> component \<Rightarrow> component" where
  \<comment> \<open>the callback of \<^verbatim>\<open>boundEls.forEach\<close>\<close>
  "bind_el pf el c =
     (case shadowRoot c of
        None \<Rightarrow> c
      | Some sh \<Rightarrow>
          (case bound_key (sh ! el) of
             None \<Rightarrow> c
           | Some key \<Rightarrow>
               if key = [] then c
               else set_textContent (display pf (prop_get c key)) el
                      (c\<lparr>bindings := bindings_push key el (bindings c)\<rparr>)))"

definition render :: "platform \<Rightarrow> component \<Rightarrow> component" where
  \<comment> \<open>\<open>bindActions\<close> adds listeners to elements (and warns of a missing method); it writes
      no field of the component and is left out\<close>
  "render pf c =
     (case shadowRoot c of
        None \<Rightarrow> c
      | Some sh0 \<Rightarrow>
          (case templateFn c of
             None \<Rightarrow> c
           | Some tf \<Rightarrow>
               if \<not> initialized c then
                 (let c1 = ensureStyles c;
                      (rawHtml, c2) = call_templateFn pf tf c1;
                      processed = replace_placeholders rawHtml;
                      c3 = insert_markup pf processed c2;
                      c4 = fold (bind_el pf) (boundEls (content c3)) c3
                  in c4\<lparr>initialized := True\<rparr>)
               else update_all pf c))"

definition connectedCallback :: "platform \<Rightarrow> component \<Rightarrow> component" where
  "connectedCallback pf c = render pf c"

definition attributeChangedCallback ::
  "platform \<Rightarrow> string \<Rightarrow> string option \<Rightarrow> string option \<Rightarrow> component \<Rightarrow> component" where
  \<comment> \<open>an attribute value is a string, or \<^verbatim>\<open>null\<close> (\<open>None\<close>) when the attribute is absent\<close>
  "attributeChangedCallback pf name oldValue newValue c =
     (if oldValue \<noteq> newValue then
        (let currentValue = prop_get c name;
             propType = typeof currentValue;
             value0 = (case newValue of None \<Rightarrow> JNull | Some s \<Rightarrow> JString s);
             value1 = (if propType = TNumber then JNumber (Number_js pf value0) else value0);
             value2 = (if propType = TBoolean then JBool (newValue \<noteq> None) else value1);
             c1 = proxy_set pf name value2 c
         in updateBindings pf (Some name) c1)
      else c)"

definition emit :: "string \<Rightarrow> jsany \<Rightarrow> component \<Rightarrow> component" where
  \<comment> \<open>\<^verbatim>\<open>this.dispatchEvent(new CustomEvent(eventName, { detail, ... }))\<close>\<close>
  "emit eventName detail c = c\<lparr>effects := effects c @ [EventDispatched eventName detail]\<rparr>"

subsection \<open>Lifecycle reactions\<close>

text \<open>
  When a class is registered as a custom element, the platform takes the lifecycle
  callbacks from the prototype of the class, each under its name, and calls the ones it
  found when an element is inserted into the page or removed from it. A name that the
  prototype does not have gives no reaction.
\<close>

definition insertedIntoPage :: "platform \<Rightarrow> component \<Rightarrow> component" where
  "insertedIntoPage pf c =
     (if ''connectedCallback'' \<in> set prototype_methods then connectedCallback pf c else c)"

definition removedFromPage :: "component \<Rightarrow> component" where
  "removedFromPage c =
     (if ''disconnectedCallback'' \<in> set prototype_methods then disconnectedCallback c else c)"

section \<open>The example component\<close>

text \<open>
  The template and the two style sheets are imported from files that are not part of the
  sources at hand; they are parameters of the constructor.
\<close>

definition ExampleComponent :: "platform \<Rightarrow> string \<Rightarrow> string \<Rightarrow> string \<Rightarrow> component" where
  "ExampleComponent pf templateHtml baseStyles styles1 =
     BaseComponent pf (Some (TemplateFunction (\<lambda>locals. templateHtml)))
       (Some [(''count'', JNumber (Num 0)), (''label'', JString ''Counter''),
              (''active'', JBool False)])
       (Some [baseStyles, styles1])"

definition increment :: "platform \<Rightarrow> component \<Rightarrow> component" where
  \<comment> \<open>\<^verbatim>\<open>this.props.count += 1; this.emit('incremented', this.props.count)\<close>\<close>
  "increment pf c =
     (let c1 = proxy_set pf ''count'' (js_plus pf (prop_get c ''count'') (Prim (JNumber (Num 1)))) c
      in emit ''incremented'' (prop_get c1 ''count'') c1)"

definition toggle :: "platform \<Rightarrow> component \<Rightarrow> component" where
  "toggle pf c =
     (let c1 = proxy_set pf ''active'' (JBool (\<not> truthy (prop_get c ''active''))) c
      in emit ''toggled'' (prop_get c1 ''active'') c1)"

subsection \<open>Observations on effects and content\<close>

definition dispatched :: "effect list \<Rightarrow> (string \<times> jsany) list" where
  "dispatched es = concat (map (\<lambda>e. case e of EventDispatched n d \<Rightarrow> [(n, d)] | _ \<Rightarrow> []) es)"

definition creations :: "effect list \<Rightarrow> effect list" where
  \<comment> \<open>the effects that create nodes\<close>
  "creations es =
     filter (\<lambda>e. case e of ElementAppended n \<Rightarrow> True | MarkupInserted m \<Rightarrow> True | _ \<Rightarrow> False) es"

definition materializations :: "effect list \<Rightarrow> nat" where
  \<comment> \<open>how often the template function was called\<close>
  "materializations es = length (filter (\<lambda>e. e = TemplateCalled) es)"

definition text_updates :: "nat \<Rightarrow> effect list \<Rightarrow> string list" where
  \<comment> \<open>the texts written to the element at a position, in order\<close>
  "text_updates el es =
     concat (map (\<lambda>e. case e of TextContentSet i s \<Rightarrow> if i = el then [s] else [] | _ \<Rightarrow> []) es)"

definition bound_texts :: "component \<Rightarrow> string \<Rightarrow> string list" where
  \<comment> \<open>the texts shown by the elements the binding table holds for a key\<close>
  "bound_texts c key = map (\<lambda>el. textContent (content c ! el)) (bindings_get (bindings c) key)"

definition well_bound :: "component \<Rightarrow> bool" where
  \<comment> \<open>every entry of the binding table refers to an element of the shadow root with that key\<close>
  "well_bound c =
     (shadowRoot c \<noteq> None \<and>
      (\<forall>(key, els) \<in> set (bindings c). \<forall>el \<in> set els.
          el < length (content c) \<and> bound_key (content c ! el) = Some key))"

definition rendered_markup :: "platform \<Rightarrow> component \<Rightarrow> string" where
  \<comment> \<open>the markup the first render of a component gives to the parser: the markup of the
      shadow root once the styles are added, followed by the template with its
      placeholders replaced\<close>
  "rendered_markup pf c =
     serializeHTML pf (content (ensureStyles c)) @ replace_placeholders (rawHtml pf c)"

subsection \<open>A platform for the examples\<close>

text \<open>
  The examples run on a platform that is given by its markup parser. It converts no
  string to a number, and its serializer writes the style and link elements that
  \<open>ensureStyles\<close> adds, which are the only elements the examples have it write.
\<close>

abbreviation example_platform :: "(string \<Rightarrow> node list) \<Rightarrow> platform" where
  "example_platform parser \<equiv>
     \<lparr>StringToNumber = (\<lambda>s. NaN), IntegerToString = (\<lambda>i. []), InexactAdd = (\<lambda>a b. NaN),
      MemberToString = (\<lambda>k. ''[object Object]''), templates = Map.empty,
      serializeHTML = (\<lambda>ns. concat (map (\<lambda>n. case n of
          StyleEl s \<Rightarrow> ''<style>'' @ s @ ''</style>''
        | LinkEl h \<Rightarrow> ''<link rel='' @ [dquote] @ ''stylesheet'' @ [dquote] @ '' href=''
                       @ [dquote] @ h @ [dquote] @ ''>''
        | Parsed k t \<Rightarrow> []) ns)),
      parseHTML = parser\<rparr>"

section \<open>Properties of the offline cache worker\<close>

subsection \<open>Helper facts\<close>

lemma startsWith_iff: "startsWith s p = (\<exists>r. s = p @ r)"
proof
  assume "startsWith s p"
  then have "s = p @ drop (length p) s"
    unfolding startsWith_def by (metis append_take_drop_id)
  then show "\<exists>r. s = p @ r" ..
next
  assume "\<exists>r. s = p @ r"
  then show "startsWith s p" by (auto simp: startsWith_def)
qed

lemma bucket_put:
  "name \<in> set (map fst cs) \<Longrightarrow>
   bucket (map (\<lambda>(n, b). if n = name then (n, b(key \<mapsto> r)) else (n, b)) cs) name key = Some r"
  by (induction cs) (auto simp: bucket_def)

lemma caches_open_has: "name \<in> set (map fst (caches (caches_open name st)))"
  by (simp add: caches_open_def emit_sw_def)

lemma bucket_caches_open: "bucket (caches (caches_open name st)) n = bucket (caches st) n"
proof (cases "name \<in> set (map fst (caches st))")
  case True
  then show ?thesis by (simp add: caches_open_def emit_sw_def)
next
  case False
  then have "map_of (caches st) name = None" by (simp add: map_of_eq_None_iff)
  then show ?thesis
    by (auto simp: caches_open_def emit_sw_def bucket_def map_add_def split: option.splits)
qed

lemma img_suffix_iff:
  "img_suffix s = (\<exists>es. es \<noteq> [] \<and> list_all is_digit es \<and> s = CHR ''-'' # es @ ''px.jpg'')"
proof
  assume "img_suffix s"
  then obtain r where s: "s = CHR ''-'' # r" and t: "takeWhile is_digit r \<noteq> []"
    and d: "dropWhile is_digit r = ''px.jpg''"
    by (auto simp: img_suffix_def split: list.splits)
  have "r = takeWhile is_digit r @ dropWhile is_digit r" by simp
  with d have "r = takeWhile is_digit r @ ''px.jpg''" by simp
  moreover have "list_all is_digit (takeWhile is_digit r)"
    by (simp add: list_all_iff) (meson set_takeWhileD)
  ultimately show "\<exists>es. es \<noteq> [] \<and> list_all is_digit es \<and> s = CHR ''-'' # es @ ''px.jpg''"
    using s t by blast
next
  assume "\<exists>es. es \<noteq> [] \<and> list_all is_digit es \<and> s = CHR ''-'' # es @ ''px.jpg''"
  then obtain es where es: "es \<noteq> []" "list_all is_digit es" and s: "s = CHR ''-'' # es @ ''px.jpg''"
    by blast
  have np: "\<not> is_digit CHR ''p''" by (simp add: is_digit_def)
  have "takeWhile is_digit (es @ ''px.jpg'') = es" "dropWhile is_digit (es @ ''px.jpg'') = ''px.jpg''"
    using es(2) np by (simp_all add: list_all_iff takeWhile_append2 dropWhile_append2)
  then show "img_suffix s" using es(1) by (simp add: img_suffix_def s)
qed

lemma strip_img_fixed_iff:
  "(strip_img_suffix u = u) = (\<forall>v t. u = v @ t \<longrightarrow> \<not> img_suffix t)"
proof (induction u)
  case Nil
  then show ?case by (simp add: img_suffix_def)
next
  case (Cons c u)
  have "(\<forall>v t. c # u = v @ t \<longrightarrow> \<not> img_suffix t)
        = (\<not> img_suffix (c # u) \<and> (\<forall>v t. u = v @ t \<longrightarrow> \<not> img_suffix t))"
    by (auto simp: Cons_eq_append_conv)
  with Cons show ?case by auto
qed

lemma strip_img_decorated:
  assumes "ds \<noteq> []" and "list_all is_digit ds"
  shows "strip_img_suffix (u @ CHR ''-'' # ds @ ''px.jpg'') = u"
proof (induction u)
  case Nil
  have "img_suffix (CHR ''-'' # ds @ ''px.jpg'')"
    using assms by (auto simp: img_suffix_iff)
  then show ?case by simp
next
  case (Cons c u)
  have "\<not> img_suffix (c # u @ CHR ''-'' # ds @ ''px.jpg'')"
  proof
    assume "img_suffix (c # u @ CHR ''-'' # ds @ ''px.jpg'')"
    then obtain es where es: "list_all is_digit es"
      and eq: "c # u @ CHR ''-'' # ds @ ''px.jpg'' = CHR ''-'' # es @ ''px.jpg''"
      by (auto simp: img_suffix_iff)
    from eq have "(u @ CHR ''-'' # ds) @ ''px.jpg'' = es @ ''px.jpg''" by simp
    then have "u @ CHR ''-'' # ds = es" by (simp only: append_same_eq)
    then have "CHR ''-'' \<in> set es" by auto
    with es show False by (auto simp: list_all_iff is_digit_def)
  qed
  with Cons show ?case by simp
qed


lemma script_suffix_length: "script_suffix s \<Longrightarrow> length s = 6"
  by (auto simp: script_suffix_def split: list.splits)

lemma strip_script_decorated:
  "is_digit d \<Longrightarrow> strip_script_suffix (u @ CHR ''-'' # d # ''x.js'') = u"
proof (induction u)
  case Nil
  then show ?case by (simp add: script_suffix_def)
next
  case (Cons c u)
  have "\<not> script_suffix (c # u @ CHR ''-'' # d # ''x.js'')"
    using script_suffix_length [of "c # u @ CHR ''-'' # d # ''x.js''"] by auto
  with Cons show ?case by simp
qed

lemma scripts_route:
  assumes "startsWith p ''/scripts/''"
  shows "p \<noteq> ''/''" and "\<not> startsWith p ''/img/''"
proof -
  from assms obtain r where p: "p = ''/scripts/'' @ r" by (auto simp: startsWith_iff)
  show "p \<noteq> ''/''" by (simp add: p)
  show "\<not> startsWith p ''/img/''" by (simp add: p startsWith_def)
qed

lemma fold_caches_delete:
  "caches (fold caches_delete ns st) = filter (\<lambda>(n, b). n \<notin> set ns) (caches st)
   \<and> log (fold caches_delete ns st) = log st @ map CachesDelete ns"
proof (induction ns arbitrary: st)
  case Nil
  show ?case by simp
next
  case (Cons n ns)
  have "filter (\<lambda>(m, b). m \<notin> set ns) (filter (\<lambda>(m, b). m \<noteq> n) (caches st))
        = filter (\<lambda>(m, b). m \<notin> set (n # ns)) (caches st)"
    by (induction "caches st") (auto simp: case_prod_beta)
  then show ?case
    using Cons [of "caches_delete n st"]
    by (simp add: caches_delete_def emit_sw_def)
qed

lemma stale_literal:
  "stale n = (startsWith n ''basic-'' \<and> n \<noteq> ''basic-static-v1'' \<and> n \<noteq> ''basic-content-imgs'')"
  by (auto simp: stale_def allCaches_def staticCacheName_def contentImgsCache_def)

lemma fetches_append: "fetches (xs @ ys) = fetches xs @ fetches ys"
  by (simp add: fetches_def)

lemma serveScript_result:
  "fst (serveScript env req st) =
     (case network env req of None \<Rightarrow> Rejected | Some r \<Rightarrow> Fulfilled (Some r))"
  by (simp add: serveScript_def Let_def cache_match_def fetch_def split: option.splits)

lemma serveScript_log:
  "log (snd (serveScript env req st)) =
     log st @ [CachesOpen contentImgsCache,
               CacheMatch contentImgsCache (strip_script_suffix (url req)), Fetch req] @
     (case network env req of
        None \<Rightarrow> []
      | Some r \<Rightarrow> [CachePut contentImgsCache (strip_script_suffix (url req)) r])"
  by (simp add: serveScript_def Let_def cache_match_def fetch_def cache_put_def emit_sw_def
      caches_open_def split: option.splits)

lemma serveScript_stores:
  "network env req = Some r \<Longrightarrow>
   bucket (caches (snd (serveScript env req st))) contentImgsCache
     (strip_script_suffix (url req)) = Some r"
  using bucket_put [OF caches_open_has [of contentImgsCache st]]
  by (simp add: serveScript_def Let_def cache_match_def fetch_def cache_put_def emit_sw_def)

subsection \<open>Claims\<close>

text \<open>
  Claim C3. A same-origin request whose path starts with \<^verbatim>\<open>/scripts/\<close> is served by
  \<open>serveScript\<close>: the key is the URL without a trailing \<^verbatim>\<open>-<digit>x.js\<close>, the bucket
  is looked up under that key, and then the original request is fetched whatever the
  lookup gave. The settled value depends on the network alone (the live response, or a
  rejection when the fetch fails), so a stored entry is never returned; a live response
  is stored under the key.
\<close>

theorem scripts_always_fetch:
  assumes "url_origin env (url req) = location_origin env"
    and "startsWith (url_pathname env (url req)) ''/scripts/''"
  shows "fst (fetch_listener env req st) =
           (case network env req of None \<Rightarrow> Rejected | Some r \<Rightarrow> Fulfilled (Some r))
         \<and> log (snd (fetch_listener env req st)) =
             log st @ [CachesOpen ''basic-content-imgs'',
                       CacheMatch ''basic-content-imgs'' (strip_script_suffix (url req)),
                       Fetch req] @
             (case network env req of
                None \<Rightarrow> []
              | Some r \<Rightarrow> [CachePut ''basic-content-imgs'' (strip_script_suffix (url req)) r])
         \<and> (\<forall>r. network env req = Some r \<longrightarrow>
               bucket (caches (snd (fetch_listener env req st))) ''basic-content-imgs''
                 (strip_script_suffix (url req)) = Some r)
         \<and> (\<forall>u d. is_digit d \<longrightarrow> strip_script_suffix (u @ ''-'' @ [d] @ ''x.js'') = u)"
proof -
  have "fetch_listener env req st = serveScript env req st"
    using assms scripts_route [OF assms(2)] by (simp add: fetch_listener_def Let_def)
  then show ?thesis
    using serveScript_result [of env req st] serveScript_log [of env req st]
      serveScript_stores [of env req _ st] strip_script_decorated
    unfolding contentImgsCache_def by simp
qed

theorem scripts_always_fetch_witness:
  "url_origin \<lparr>location_origin = ''https://a'', url_origin = take 9, url_pathname = drop 9,
       network = (\<lambda>r. Some (Response ''live''))\<rparr> ''https://a/scripts/app-2x.js'' = ''https://a''
   \<and> startsWith (drop 9 ''https://a/scripts/app-2x.js'') ''/scripts/''
   \<and> fst (fetch_listener \<lparr>location_origin = ''https://a'', url_origin = take 9,
          url_pathname = drop 9, network = (\<lambda>r. Some (Response ''live''))\<rparr>
        \<lparr>url = ''https://a/scripts/app-2x.js''\<rparr>
        \<lparr>caches = [(''basic-content-imgs'', [''https://a/scripts/app'' \<mapsto> Response ''stored''])],
          log = []\<rparr>) = Fulfilled (Some (Response ''live''))
   \<and> fetches (log (snd (fetch_listener \<lparr>location_origin = ''https://a'', url_origin = take 9,
          url_pathname = drop 9, network = (\<lambda>r. Some (Response ''live''))\<rparr>
        \<lparr>url = ''https://a/scripts/app-2x.js''\<rparr>
        \<lparr>caches = [(''basic-content-imgs'', [''https://a/scripts/app'' \<mapsto> Response ''stored''])],
          log = []\<rparr>))) = [\<lparr>url = ''https://a/scripts/app-2x.js''\<rparr>]"
  using scripts_always_fetch [of "\<lparr>location_origin = ''https://a'', url_origin = take 9,
       url_pathname = drop 9, network = (\<lambda>r. Some (Response ''live''))\<rparr>"
     "\<lparr>url = ''https://a/scripts/app-2x.js''\<rparr>"
     "\<lparr>caches = [(''basic-content-imgs'', [''https://a/scripts/app'' \<mapsto> Response ''stored''])],
          log = []\<rparr>"]
  by (simp add: startsWith_def fetches_def)

text \<open>
  Claim C4, as amended. For every URL \<open>u\<close> and every decoration \<^verbatim>\<open>-<digits>px.jpg\<close> the
  key derived from the decorated URL is \<open>u\<close>. Normalising \<open>u\<close> again leaves it unchanged
  exactly when \<open>u\<close> does not itself end in such a decoration. When serving one variant
  misses and fetches, the response is stored under \<open>u\<close>, and a request of any other
  variant of \<open>u\<close>, next or in any later state that still holds the entry, gets the
  stored response with no further fetch, whatever the network does then.
\<close>

theorem img_variants_share_key:
  assumes "ds \<noteq> []" and "list_all is_digit ds" and "es \<noteq> []" and "list_all is_digit es"
    and "url req = u @ ''-'' @ ds @ ''px.jpg''" and "url req' = u @ ''-'' @ es @ ''px.jpg''"
  shows "strip_img_suffix (url req) = u \<and> strip_img_suffix (url req') = u
    \<and> (strip_img_suffix u = u) =
           (\<not> (\<exists>v ns. ns \<noteq> [] \<and> list_all is_digit ns \<and> u = v @ ''-'' @ ns @ ''px.jpg''))
    \<and> (bucket (caches st) ''basic-content-imgs'' u = None \<and> network env req = Some r \<longrightarrow>
           fst (serveImg env req st) = Fulfilled (Some r)
           \<and> bucket (caches (snd (serveImg env req st))) ''basic-content-imgs'' u = Some r
           \<and> fst (serveImg env' req' (snd (serveImg env req st))) = Fulfilled (Some r)
           \<and> fetches (log (snd (serveImg env' req' (snd (serveImg env req st)))))
               = fetches (log (snd (serveImg env req st))))
    \<and> (bucket (caches st') ''basic-content-imgs'' u = Some r \<longrightarrow>
           fst (serveImg env' req' st') = Fulfilled (Some r)
           \<and> fetches (log (snd (serveImg env' req' st'))) = fetches (log st'))"
proof -
  have k: "strip_img_suffix (url req) = u \<and> strip_img_suffix (url req') = u"
    using assms strip_img_decorated by simp
  have fixed: "(strip_img_suffix u = u) =
           (\<not> (\<exists>v ns. ns \<noteq> [] \<and> list_all is_digit ns \<and> u = v @ ''-'' @ ns @ ''px.jpg''))"
    unfolding strip_img_fixed_iff img_suffix_iff by auto
  have hit_later: "fst (serveImg env' req' st') = Fulfilled (Some r)
           \<and> fetches (log (snd (serveImg env' req' st'))) = fetches (log st')"
    if a: "bucket (caches st') ''basic-content-imgs'' u = Some r"
  proof -
    have "bucket (caches (caches_open contentImgsCache st')) contentImgsCache u = Some r"
      using a by (simp add: bucket_caches_open contentImgsCache_def)
    then have "serveImg env' req' st' =
        (Fulfilled (Some r), emit_sw (CacheMatch contentImgsCache u)
           (caches_open contentImgsCache st'))"
      using k by (simp add: serveImg_def Let_def cache_match_def)
    then show ?thesis by (simp add: emit_sw_def caches_open_def fetches_def)
  qed
  have shared: "fst (serveImg env req st) = Fulfilled (Some r)
           \<and> bucket (caches (snd (serveImg env req st))) ''basic-content-imgs'' u = Some r
           \<and> fst (serveImg env' req' (snd (serveImg env req st))) = Fulfilled (Some r)
           \<and> fetches (log (snd (serveImg env' req' (snd (serveImg env req st)))))
               = fetches (log (snd (serveImg env req st)))"
    if a: "bucket (caches st) ''basic-content-imgs'' u = None \<and> network env req = Some r"
  proof -
    let ?st1 = "snd (serveImg env req st)"
    have miss: "bucket (caches (caches_open contentImgsCache st)) contentImgsCache u = None"
      using a by (simp add: bucket_caches_open contentImgsCache_def)
    have first: "serveImg env req st =
        (Fulfilled (Some r), cache_put contentImgsCache u r
           (emit_sw (Fetch req) (emit_sw (CacheMatch contentImgsCache u)
              (caches_open contentImgsCache st))))"
      using a k miss by (simp add: serveImg_def Let_def cache_match_def fetch_def emit_sw_def)
    have stored: "bucket (caches ?st1) contentImgsCache u = Some r"
      using bucket_put [OF caches_open_has [of contentImgsCache st]]
      by (simp add: first cache_put_def emit_sw_def)
    have hit: "bucket (caches (caches_open contentImgsCache ?st1)) contentImgsCache u = Some r"
      using stored by (simp add: bucket_caches_open)
    have second: "serveImg env' req' ?st1 =
        (Fulfilled (Some r), emit_sw (CacheMatch contentImgsCache u)
           (caches_open contentImgsCache ?st1))"
      using k hit by (simp add: serveImg_def Let_def cache_match_def)
    show ?thesis
      using stored
      by (simp add: second) (simp add: first contentImgsCache_def emit_sw_def caches_open_def
          fetches_def)
  qed
  show ?thesis using k fixed shared hit_later by blast
qed

theorem img_variants_share_key_witness:
  "''800'' \<noteq> [] \<and> list_all is_digit ''800'' \<and> ''40'' \<noteq> [] \<and> list_all is_digit ''40''
   \<and> strip_img_suffix ''https://a/img/photo-800px.jpg'' = ''https://a/img/photo''
   \<and> strip_img_suffix ''https://a/img/photo-40px.jpg'' = ''https://a/img/photo''
   \<and> fst (serveImg \<lparr>location_origin = ''https://a'', url_origin = take 9, url_pathname = drop 9,
              network = (\<lambda>r. None)\<rparr> \<lparr>url = ''https://a/img/photo-40px.jpg''\<rparr>
        (snd (serveImg \<lparr>location_origin = ''https://a'', url_origin = take 9,
              url_pathname = drop 9, network = (\<lambda>r. Some (Response ''jpg''))\<rparr>
           \<lparr>url = ''https://a/img/photo-800px.jpg''\<rparr> \<lparr>caches = [], log = []\<rparr>)))
       = Fulfilled (Some (Response ''jpg''))"
  using img_variants_share_key [where ds = "''800''" and es = "''40''"
      and req = "\<lparr>url = ''https://a/img/photo-800px.jpg''\<rparr>" and u = "''https://a/img/photo''"
      and req' = "\<lparr>url = ''https://a/img/photo-40px.jpg''\<rparr>"
      and st = "\<lparr>caches = [], log = []\<rparr>"
      and env = "\<lparr>location_origin = ''https://a'', url_origin = take 9, url_pathname = drop 9,
              network = (\<lambda>r. Some (Response ''jpg''))\<rparr>" and r = "Response ''jpg''"
      and env' = "\<lparr>location_origin = ''https://a'', url_origin = take 9, url_pathname = drop 9,
              network = (\<lambda>r. None)\<rparr>"]
  by (simp add: is_digit_def bucket_def)

text \<open>
  Claim C4 as stated fails where a key itself ends in a decoration: the key derived from
  \<^verbatim>\<open>p-1px.jpg-2px.jpg\<close> is \<^verbatim>\<open>p-1px.jpg\<close>, and normalising that key changes it.
\<close>

theorem img_key_not_idempotent:
  "strip_img_suffix ''https://a/img/p-1px.jpg-2px.jpg'' = ''https://a/img/p-1px.jpg''
   \<and> strip_img_suffix ''https://a/img/p-1px.jpg'' \<noteq> ''https://a/img/p-1px.jpg''"
  by (simp add: img_suffix_def is_digit_def)

text \<open>
  Claim C5. Activation keeps exactly the buckets whose name does not start with
  \<^verbatim>\<open>basic-\<close> or is one of \<^verbatim>\<open>basic-static-v1\<close>, \<^verbatim>\<open>basic-content-imgs\<close>, with their
  contents, and the deletions it issues are exactly the other names. In particular, from
  \<^verbatim>\<open>basic-static-v1\<close>, \<^verbatim>\<open>basic-static-v0\<close>, \<^verbatim>\<open>other-app-cache\<close> only
  \<^verbatim>\<open>basic-static-v0\<close> is deleted.
\<close>

theorem activate_purges_stale:
  "caches (activate st) =
     filter (\<lambda>(n, b). \<not> (startsWith n ''basic-'' \<and> n \<noteq> ''basic-static-v1''
                           \<and> n \<noteq> ''basic-content-imgs'')) (caches st)
   \<and> deleted (log (activate st)) = deleted (log st) @
     filter (\<lambda>n. startsWith n ''basic-'' \<and> n \<noteq> ''basic-static-v1''
                           \<and> n \<noteq> ''basic-content-imgs'') (map fst (caches st))"
proof -
  let ?ns = "filter stale (map fst (caches st))"
  have mem: "\<And>n b. (n, b) \<in> set (caches st) \<Longrightarrow> (n \<notin> set ?ns) = (\<not> stale n)"
    by (auto intro: rev_image_eqI)
  have "filter (\<lambda>(n, b). n \<notin> set ?ns) (caches st) = filter (\<lambda>(n, b). \<not> stale n) (caches st)"
    by (rule filter_cong) (use mem in \<open>auto simp del: set_filter\<close>)
  moreover have "deleted (xs @ ys) = deleted xs @ deleted ys" for xs ys
    by (simp add: deleted_def)
  moreover have "deleted (map CachesDelete ns) = ns" for ns
    by (induction ns) (simp_all add: deleted_def)
  moreover have "deleted [CachesKeys] = []" by (simp add: deleted_def)
  ultimately show ?thesis
    using fold_caches_delete [of ?ns "emit_sw CachesKeys st"]
    by (simp add: activate_def Let_def emit_sw_def stale_literal [abs_def] del: append_assoc)
qed

theorem activate_purges_stale_witness:
  "map fst (caches (activate \<lparr>caches = [(''basic-static-v1'', Map.empty),
      (''basic-static-v0'', Map.empty), (''other-app-cache'', Map.empty)], log = []\<rparr>))
     = [''basic-static-v1'', ''other-app-cache'']
   \<and> deleted (log (activate \<lparr>caches = [(''basic-static-v1'', Map.empty),
      (''basic-static-v0'', Map.empty), (''other-app-cache'', Map.empty)], log = []\<rparr>))
     = [''basic-static-v0'']"
  using activate_purges_stale [of "\<lparr>caches = [(''basic-static-v1'', Map.empty),
      (''basic-static-v0'', Map.empty), (''other-app-cache'', Map.empty)], log = []\<rparr>"]
  by (simp add: startsWith_def deleted_def)

text \<open>
  Claim C6. A same-origin request for the path \<^verbatim>\<open>/\<close> is answered with the result of
  \<^verbatim>\<open>caches.match('/skeleton')\<close>, present or not; the listener records no fetch and its
  result does not depend on the network.
\<close>

theorem root_serves_skeleton:
  assumes "url_origin env (url req) = location_origin env"
    and "url_pathname env (url req) = ''/''"
  shows "fetch_listener env req st =
           (Fulfilled (storage_match (caches st) (location_origin env @ ''/skeleton'')),
            st\<lparr>log := log st @ [CachesMatch (location_origin env @ ''/skeleton'')]\<rparr>)
         \<and> fetches (log (snd (fetch_listener env req st))) = fetches (log st)
         \<and> fetch_listener (env\<lparr>network := net\<rparr>) req st = fetch_listener env req st"
  using assms
  by (simp add: fetch_listener_def Let_def caches_match_def emit_sw_def skeleton_key_def
      fetches_append) (simp add: fetches_def)

theorem root_serves_skeleton_witness:
  "fetch_listener \<lparr>location_origin = ''https://a'', url_origin = take 9, url_pathname = drop 9,
       network = (\<lambda>r. None)\<rparr> \<lparr>url = ''https://a/''\<rparr>
     \<lparr>caches = [(''basic-static-v1'', [''https://a/skeleton'' \<mapsto> Response ''shell''])], log = []\<rparr>
   = (Fulfilled (Some (Response ''shell'')),
      \<lparr>caches = [(''basic-static-v1'', [''https://a/skeleton'' \<mapsto> Response ''shell''])],
       log = [CachesMatch ''https://a/skeleton'']\<rparr>)"
  using root_serves_skeleton [of "\<lparr>location_origin = ''https://a'', url_origin = take 9,
       url_pathname = drop 9, network = (\<lambda>r. None)\<rparr>" "\<lparr>url = ''https://a/''\<rparr>"
     "\<lparr>caches = [(''basic-static-v1'', [''https://a/skeleton'' \<mapsto> Response ''shell''])], log = []\<rparr>"]
  by simp

section \<open>Properties of the page controller\<close>

lemma deliver_after_first:
  "refreshing p = Some True \<Longrightarrow> deliver events p = p"
  by (induction events) (simp_all add: deliver_def controllerchange_def truthy_flag_def)

text \<open>
  Claim C7. For two or more \<^verbatim>\<open>controllerchange\<close> events in one page session the page
  is reloaded once: the first event reloads and sets the flag, every later event
  leaves the state as it was.
\<close>

theorem reload_once:
  assumes "2 \<le> length events"
  shows "reloads (deliver events page_init) = 1
         \<and> deliver (take 1 events) page_init = \<lparr>refreshing = Some True, reloads = 1\<rparr>
         \<and> (\<forall>k. 1 \<le> k \<longrightarrow> deliver (take (Suc k) events) page_init = deliver (take k events) page_init)"
proof -
  from assms obtain e rest where ev: "events = e # rest" by (cases events) auto
  let ?p1 = "\<lparr>refreshing = Some True, reloads = 1\<rparr>"
  have p1: "controllerchange page_init = ?p1"
    by (simp add: controllerchange_def page_init_def truthy_flag_def)
  have step: "deliver (e # es) page_init = ?p1" for es
    using deliver_after_first [of ?p1 es] by (simp add: deliver_def p1)
  have "deliver (take k events) page_init = ?p1" if "1 \<le> k" for k
    using that step by (cases k) (simp_all add: ev)
  then show ?thesis using step by (simp add: ev)
qed

theorem reload_once_witness:
  "2 \<le> length [(), ()] \<and> reloads (deliver [(), ()] page_init) = 1"
  using reload_once [of "[(), ()]"] by simp

section \<open>Properties of the component base class\<close>

subsection \<open>Helper facts\<close>

lemma bound_key_write_text [simp]: "bound_key (write_text s n) = bound_key n"
  by (cases n) simp_all

lemma write_text_idem [simp]: "write_text s (write_text t n) = write_text s n"
  by (cases n) simp_all

lemma textContent_write_text:
  "bound_key n = Some k \<Longrightarrow> textContent (write_text s n) = s"
  by (cases n) simp_all

lemma nth_write [simp]:
  "bound_key (xs[el := write_text s (xs ! el)] ! i) = bound_key (xs ! i)"
  "write_text s (xs[el := write_text s (xs ! el)] ! i) = write_text s (xs ! i)"
proof -
  show "bound_key (xs[el := write_text s (xs ! el)] ! i) = bound_key (xs ! i)"
  proof (cases "el < length xs")
    case True
    then show ?thesis by (cases "i = el") simp_all
  next
    case False
    then show ?thesis by (simp add: list_update_beyond)
  qed
  show "write_text s (xs[el := write_text s (xs ! el)] ! i) = write_text s (xs ! i)"
  proof (cases "el < length xs")
    case True
    then show ?thesis by (cases "i = el") simp_all
  next
    case False
    then show ?thesis by (simp add: list_update_beyond)
  qed
qed

lemma set_textContent_fields [simp]:
  "props (set_textContent s el c) = props c"
  "propsInherit (set_textContent s el c) = propsInherit c"
  "bindings (set_textContent s el c) = bindings c"
  "initialized (set_textContent s el c) = initialized c"
  "templateFn (set_textContent s el c) = templateFn c"
  "templateId (set_textContent s el c) = templateId c"
  "styles (set_textContent s el c) = styles c"
  "stylesIsPath (set_textContent s el c) = stylesIsPath c"
  "styleAdded (set_textContent s el c) = styleAdded c"
  "effects (set_textContent s el c) = effects c @ [TextContentSet el s]"
  "(shadowRoot (set_textContent s el c) = None) = (shadowRoot c = None)"
  "content (set_textContent s el c) = (content c)[el := write_text s (content c ! el)]"
  by (simp_all add: set_textContent_def content_def split: option.splits)

lemma prop_get_set_textContent [simp]: "prop_get (set_textContent s el c) k = prop_get c k"
  by (simp add: prop_get_def)

lemma fold_set_fields [simp]:
  "props (fold (set_textContent s) els c) = props c"
  "propsInherit (fold (set_textContent s) els c) = propsInherit c"
  "bindings (fold (set_textContent s) els c) = bindings c"
  "initialized (fold (set_textContent s) els c) = initialized c"
  "templateFn (fold (set_textContent s) els c) = templateFn c"
  "templateId (fold (set_textContent s) els c) = templateId c"
  "styles (fold (set_textContent s) els c) = styles c"
  "stylesIsPath (fold (set_textContent s) els c) = stylesIsPath c"
  "styleAdded (fold (set_textContent s) els c) = styleAdded c"
  "effects (fold (set_textContent s) els c) = effects c @ map (\<lambda>el. TextContentSet el s) els"
  "(shadowRoot (fold (set_textContent s) els c) = None) = (shadowRoot c = None)"
  by (induction els arbitrary: c) simp_all

lemma fold_set_length [simp]:
  "length (content (fold (set_textContent s) els c)) = length (content c)"
  by (induction els arbitrary: c) simp_all

lemma fold_set_keys [simp]:
  "bound_key (content (fold (set_textContent s) els c) ! i) = bound_key (content c ! i)"
proof (induction els arbitrary: c)
  case Nil
  show ?case by simp
next
  case (Cons el els)
  show ?case by (simp add: Cons)
qed

lemma fold_set_other:
  "i \<notin> set els \<Longrightarrow> content (fold (set_textContent s) els c) ! i = content c ! i"
  by (induction els arbitrary: c) simp_all

lemma fold_set_written:
  "i \<in> set els \<Longrightarrow> i < length (content c) \<Longrightarrow>
   content (fold (set_textContent s) els c) ! i = write_text s (content c ! i)"
proof (induction els arbitrary: c)
  case Nil
  then show ?case by simp
next
  case (Cons el els)
  show ?case
  proof (cases "i \<in> set els")
    case True
    with Cons show ?thesis by simp
  next
    case False
    with Cons.prems have "i = el" by simp
    with False Cons.prems show ?thesis by (simp add: fold_set_other)
  qed
qed

lemma update_els_fields [simp]:
  "props (update_els pf k els c) = props c"
  "propsInherit (update_els pf k els c) = propsInherit c"
  "bindings (update_els pf k els c) = bindings c"
  "initialized (update_els pf k els c) = initialized c"
  "templateFn (update_els pf k els c) = templateFn c"
  "templateId (update_els pf k els c) = templateId c"
  "styles (update_els pf k els c) = styles c"
  "stylesIsPath (update_els pf k els c) = stylesIsPath c"
  "styleAdded (update_els pf k els c) = styleAdded c"
  "effects (update_els pf k els c) = effects c @ map (\<lambda>el. TextContentSet el (display pf (prop_get c k))) els"
  "(shadowRoot (update_els pf k els c) = None) = (shadowRoot c = None)"
  "length (content (update_els pf k els c)) = length (content c)"
  "bound_key (content (update_els pf k els c) ! i) = bound_key (content c ! i)"
  "prop_get (update_els pf k els c) k' = prop_get c k'"
  by (simp_all add: update_els_def prop_get_def)

lemma update_els_other:
  "i \<notin> set els \<Longrightarrow> content (update_els pf k els c) ! i = content c ! i"
  by (simp add: update_els_def fold_set_other)

lemma update_els_written:
  "i \<in> set els \<Longrightarrow> i < length (content c) \<Longrightarrow>
   content (update_els pf k els c) ! i = write_text (display pf (prop_get c k)) (content c ! i)"
  by (simp add: update_els_def fold_set_written)

lemma update_all_fold_fields [simp]:
  "props (fold (\<lambda>(key, els). update_els pf key els) bs c) = props c"
  "propsInherit (fold (\<lambda>(key, els). update_els pf key els) bs c) = propsInherit c"
  "bindings (fold (\<lambda>(key, els). update_els pf key els) bs c) = bindings c"
  "initialized (fold (\<lambda>(key, els). update_els pf key els) bs c) = initialized c"
  "templateFn (fold (\<lambda>(key, els). update_els pf key els) bs c) = templateFn c"
  "templateId (fold (\<lambda>(key, els). update_els pf key els) bs c) = templateId c"
  "styles (fold (\<lambda>(key, els). update_els pf key els) bs c) = styles c"
  "stylesIsPath (fold (\<lambda>(key, els). update_els pf key els) bs c) = stylesIsPath c"
  "styleAdded (fold (\<lambda>(key, els). update_els pf key els) bs c) = styleAdded c"
  "(shadowRoot (fold (\<lambda>(key, els). update_els pf key els) bs c) = None) = (shadowRoot c = None)"
  "length (content (fold (\<lambda>(key, els). update_els pf key els) bs c)) = length (content c)"
  "bound_key (content (fold (\<lambda>(key, els). update_els pf key els) bs c) ! i) = bound_key (content c ! i)"
  "prop_get (fold (\<lambda>(key, els). update_els pf key els) bs c) k' = prop_get c k'"
  by (induction bs arbitrary: c; simp add: case_prod_beta)+

lemma update_all_fold_other:
  "\<forall>(k, els) \<in> set bs. i \<notin> set els \<Longrightarrow>
   content (fold (\<lambda>(key, els). update_els pf key els) bs c) ! i = content c ! i"
  by (induction bs arbitrary: c) (auto simp: update_els_other)

lemma update_all_fold_texts:
  assumes "\<forall>(k, els) \<in> set bs. \<forall>el \<in> set els.
             el < length (content c) \<and> bound_key (content c ! el) = Some k"
    and "(k, els) \<in> set bs" and "el \<in> set els"
  shows "textContent (content (fold (\<lambda>(key, els). update_els pf key els) bs c) ! el)
           = display pf (prop_get c k)"
  using assms
proof (induction bs arbitrary: c k els)
  case Nil
  then show ?case by simp
next
  case (Cons b bs)
  obtain k0 els0 where b: "b = (k0, els0)" by (cases b)
  let ?c1 = "update_els pf k0 els0 c"
  have inv: "\<forall>(k, els) \<in> set bs. \<forall>el \<in> set els.
               el < length (content ?c1) \<and> bound_key (content ?c1 ! el) = Some k"
    using Cons.prems(1) by auto
  show ?case
  proof (cases "\<exists>k' els'. (k', els') \<in> set bs \<and> el \<in> set els'")
    case True
    then obtain k' els' where in': "(k', els') \<in> set bs" "el \<in> set els'" by blast
    have "bound_key (content c ! el) = Some k'" using Cons.prems(1) in' by auto
    moreover have "bound_key (content c ! el) = Some k" using Cons.prems by auto
    ultimately have "k' = k" by simp
    with Cons.IH [OF inv in'] show ?thesis by (simp add: b)
  next
    case False
    then have untouched: "\<forall>(k, els) \<in> set bs. el \<notin> set els" by auto
    from False Cons.prems have here: "k = k0" "el \<in> set els0" by (auto simp: b)
    have valid: "el < length (content c)" "bound_key (content c ! el) = Some k"
      using Cons.prems by auto
    show ?thesis
      using update_all_fold_other [OF untouched, where c = ?c1] valid here
      by (simp add: b update_els_written textContent_write_text)
  qed
qed

lemma bindings_get_mem:
  "el \<in> set (bindings_get bs k) \<Longrightarrow> \<exists>els. (k, els) \<in> set bs \<and> el \<in> set els"
proof -
  assume a: "el \<in> set (bindings_get bs k)"
  then obtain els where m: "map_of bs k = Some els"
    by (cases "map_of bs k") (auto simp: bindings_get_def)
  with a have "el \<in> set els" by (simp add: bindings_get_def)
  with map_of_SomeD [OF m] show ?thesis by blast
qed

lemma well_bound_valid:
  "well_bound c \<Longrightarrow> el \<in> set (bindings_get (bindings c) k) \<Longrightarrow>
   el < length (content c) \<and> bound_key (content c ! el) = Some k"
  by (auto simp: well_bound_def dest!: bindings_get_mem)

lemma updateBindings_fields [simp]:
  "props (updateBindings pf key c) = props c"
  "propsInherit (updateBindings pf key c) = propsInherit c"
  "bindings (updateBindings pf key c) = bindings c"
  "initialized (updateBindings pf key c) = initialized c"
  "templateFn (updateBindings pf key c) = templateFn c"
  "templateId (updateBindings pf key c) = templateId c"
  "styles (updateBindings pf key c) = styles c"
  "stylesIsPath (updateBindings pf key c) = stylesIsPath c"
  "styleAdded (updateBindings pf key c) = styleAdded c"
  "(shadowRoot (updateBindings pf key c) = None) = (shadowRoot c = None)"
  "length (content (updateBindings pf key c)) = length (content c)"
  "bound_key (content (updateBindings pf key c) ! i) = bound_key (content c ! i)"
  "prop_get (updateBindings pf key c) k' = prop_get c k'"
  by (simp_all add: updateBindings_def update_all_def split: option.splits)

lemma well_bound_updateBindings: "well_bound c \<Longrightarrow> well_bound (updateBindings pf key c)"
  by (simp add: well_bound_def)

lemma updateBindings_texts:
  assumes "well_bound c" and "initialized c" and "el \<in> set (bindings_get (bindings c) name)"
  shows "textContent (content (updateBindings pf (Some name) c) ! el) = display pf (prop_get c name)"
proof -
  from assms(1) obtain sh where sr: "shadowRoot c = Some sh" by (auto simp: well_bound_def)
  note valid = well_bound_valid [OF assms(1) assms(3)]
  show ?thesis
  proof (cases "name = []")
    case False
    with sr assms(2,3) valid show ?thesis
      by (simp add: updateBindings_def update_els_written textContent_write_text)
  next
    case True
    from bindings_get_mem [OF assms(3)] obtain els
      where els: "(name, els) \<in> set (bindings c)" "el \<in> set els" by blast
    have inv: "\<forall>(k, els) \<in> set (bindings c). \<forall>el \<in> set els.
               el < length (content c) \<and> bound_key (content c ! el) = Some k"
      using assms(1) by (simp add: well_bound_def)
    show ?thesis
      using update_all_fold_texts [OF inv els] sr assms(2) True
      by (simp add: updateBindings_def update_all_def)
  qed
qed

lemma content_props_update [simp]:
  "content (c\<lparr>props := p\<rparr>) = content c"
  "content (c\<lparr>propsInherit := b\<rparr>) = content c"
  by (simp_all add: content_def)

lemma reflect_set_fields [simp]:
  "bindings (reflect_set k v c) = bindings c"
  "initialized (reflect_set k v c) = initialized c"
  "templateFn (reflect_set k v c) = templateFn c"
  "templateId (reflect_set k v c) = templateId c"
  "styles (reflect_set k v c) = styles c"
  "stylesIsPath (reflect_set k v c) = stylesIsPath c"
  "styleAdded (reflect_set k v c) = styleAdded c"
  "shadowRoot (reflect_set k v c) = shadowRoot c"
  "content (reflect_set k v c) = content c"
  "effects (reflect_set k v c) = effects c"
  by (simp_all add: reflect_set_def)

lemma well_bound_reflect_set [simp]: "well_bound (reflect_set k v c) = well_bound c"
  by (simp add: well_bound_def)

lemma reflect_set_stores:
  "k \<noteq> ''__proto__'' \<or> props c k \<noteq> None \<Longrightarrow>
   reflect_set k v c = c\<lparr>props := (props c)(k \<mapsto> v)\<rparr>"
  by (auto simp: reflect_set_def)

lemma prop_get_reflect_set:
  "k \<noteq> ''__proto__'' \<or> props c k \<noteq> None \<Longrightarrow>
   prop_get (reflect_set k v c) k' = (if k' = k then Prim v else prop_get c k')"
  by (simp add: reflect_set_stores prop_get_def object_get_def)

lemma proxy_set_fields [simp]:
  "bindings (proxy_set pf k v c) = bindings c"
  "initialized (proxy_set pf k v c) = initialized c"
  "templateFn (proxy_set pf k v c) = templateFn c"
  "templateId (proxy_set pf k v c) = templateId c"
  "styles (proxy_set pf k v c) = styles c"
  "stylesIsPath (proxy_set pf k v c) = stylesIsPath c"
  "styleAdded (proxy_set pf k v c) = styleAdded c"
  "(shadowRoot (proxy_set pf k v c) = None) = (shadowRoot c = None)"
  "length (content (proxy_set pf k v c)) = length (content c)"
  "bound_key (content (proxy_set pf k v c) ! i) = bound_key (content c ! i)"
  "prop_get (proxy_set pf k v c) k' = prop_get (reflect_set k v c) k'"
  by (simp_all add: proxy_set_def Let_def)

lemma prop_get_proxy_set:
  "k \<noteq> ''__proto__'' \<or> props c k \<noteq> None \<Longrightarrow>
   prop_get (proxy_set pf k v c) k' = (if k' = k then Prim v else prop_get c k')"
  by (simp add: prop_get_reflect_set)

lemma props_proxy_set:
  "k \<noteq> ''__proto__'' \<or> props c k \<noteq> None \<Longrightarrow>
   props (proxy_set pf k v c) = (props c)(k \<mapsto> v)
   \<and> propsInherit (proxy_set pf k v c) = propsInherit c"
  by (simp add: proxy_set_def Let_def reflect_set_stores)

lemma well_bound_proxy_set: "well_bound c \<Longrightarrow> well_bound (proxy_set pf k v c)"
  by (simp add: well_bound_def)

lemma proxy_set_texts:
  assumes "well_bound c" and "initialized c" and "el \<in> set (bindings_get (bindings c) name)"
  shows "textContent (content (proxy_set pf name v c) ! el)
           = display pf (prop_get (proxy_set pf name v c) name)"
proof -
  let ?c1 = "reflect_set name v c"
  have "well_bound ?c1" using assms(1) by simp
  then show ?thesis
    using updateBindings_texts [where c = ?c1 and el = el and name = name and pf = pf] assms(2,3)
    by (simp add: proxy_set_def)
qed

lemma attributeChanged_texts:
  assumes "well_bound c" and "initialized c" and "el \<in> set (bindings_get (bindings c) name)"
  shows "textContent (content (updateBindings pf (Some name) (proxy_set pf name v c)) ! el)
           = display pf (prop_get (proxy_set pf name v c) name)"
  using updateBindings_texts [where c = "proxy_set pf name v c" and el = el and name = name
      and pf = pf] assms
  by (simp add: well_bound_proxy_set)

lemma nat_digits_zero: "nat_digits 0 = ''0''"
  by (simp add: nat_digits.simps [of 0] digit_char_def)

lemma typeof_own:
  "typeof (prop_get c name) = TNumber \<or> typeof (prop_get c name) = TBoolean \<Longrightarrow>
   props c name \<noteq> None"
  by (auto simp: prop_get_def object_get_def split: option.splits if_splits)

lemma attributeChanged_value:
  "oldValue \<noteq> newValue \<Longrightarrow> name \<noteq> ''__proto__'' \<or> props c name \<noteq> None \<Longrightarrow>
   prop_get (attributeChangedCallback pf name oldValue newValue c) name =
     Prim (if typeof (prop_get c name) = TBoolean then JBool (newValue \<noteq> None)
           else if typeof (prop_get c name) = TNumber
             then JNumber (case newValue of None \<Rightarrow> Num 0 | Some s \<Rightarrow> StringToNumber pf s)
           else (case newValue of None \<Rightarrow> JNull | Some s \<Rightarrow> JString s))"
  by (simp add: attributeChangedCallback_def Let_def prop_get_reflect_set split: option.splits)

lemma attributeChanged_shown:
  assumes "oldValue \<noteq> newValue" and "well_bound c" and "initialized c"
    and "t \<in> set (bound_texts (attributeChangedCallback pf name oldValue newValue c) name)"
  shows "t = display pf (prop_get (attributeChangedCallback pf name oldValue newValue c) name)"
proof -
  obtain v where c': "attributeChangedCallback pf name oldValue newValue c
      = updateBindings pf (Some name) (proxy_set pf name v c)"
    using assms(1) by (simp add: attributeChangedCallback_def Let_def)
  from assms(4) obtain el where el: "el \<in> set (bindings_get (bindings c) name)"
    and t: "t = textContent (content (updateBindings pf (Some name) (proxy_set pf name v c)) ! el)"
    by (auto simp: bound_texts_def c')
  show ?thesis
    using attributeChanged_texts [OF assms(2,3) el, where pf = pf and v = v] by (simp add: t c')
qed


lemma add_style_fields [simp]:
  "props (add_style s c) = props c"
  "propsInherit (add_style s c) = propsInherit c"
  "bindings (add_style s c) = bindings c"
  "initialized (add_style s c) = initialized c"
  "templateFn (add_style s c) = templateFn c"
  "templateId (add_style s c) = templateId c"
  "styles (add_style s c) = styles c"
  "stylesIsPath (add_style s c) = stylesIsPath c"
  "(shadowRoot (add_style s c) = None) = (shadowRoot c = None)"
  by (simp_all add: add_style_def Let_def)

lemma add_style_content:
  "\<exists>S. content (add_style s c) = content c @ S \<and> (\<forall>n \<in> set S. bound_key n = None)"
proof (cases "s \<in> styleAdded c \<or> shadowRoot c = None")
  case True
  then have "content (add_style s c) = content c @ []"
    by (auto simp: add_style_def Let_def content_def)
  then show ?thesis by (metis empty_iff list.set(1))
next
  case False
  then obtain sh where sh: "shadowRoot c = Some sh" by auto
  let ?el = "if s \<in> stylesIsPath c then LinkEl s else StyleEl s"
  have "content (add_style s c) = content c @ [?el]"
    using False sh by (simp add: add_style_def Let_def content_def)
  moreover have "\<forall>n \<in> set [?el]. bound_key n = None" by simp
  ultimately show ?thesis by blast
qed

lemma fold_add_style_fields [simp]:
  "props (fold add_style ss c) = props c"
  "propsInherit (fold add_style ss c) = propsInherit c"
  "bindings (fold add_style ss c) = bindings c"
  "initialized (fold add_style ss c) = initialized c"
  "templateFn (fold add_style ss c) = templateFn c"
  "templateId (fold add_style ss c) = templateId c"
  "styles (fold add_style ss c) = styles c"
  "stylesIsPath (fold add_style ss c) = stylesIsPath c"
  "(shadowRoot (fold add_style ss c) = None) = (shadowRoot c = None)"
  by (induction ss arbitrary: c) simp_all

lemma fold_add_style_content:
  "\<exists>S. content (fold add_style ss c) = content c @ S \<and> (\<forall>n \<in> set S. bound_key n = None)"
proof (induction ss arbitrary: c)
  case Nil
  have "content c = content c @ []" by simp
  then show ?case by (metis empty_iff fold_simps(1) list.set(1))
next
  case (Cons s ss)
  from add_style_content obtain S1
    where S1: "content (add_style s c) = content c @ S1" "\<forall>n \<in> set S1. bound_key n = None"
    by blast
  from Cons [of "add_style s c"] obtain S2
    where S2: "content (fold add_style ss (add_style s c)) = content (add_style s c) @ S2"
      "\<forall>n \<in> set S2. bound_key n = None"
    by blast
  have "content (fold add_style (s # ss) c) = content c @ (S1 @ S2)"
    using S1 S2 by simp
  moreover have "\<forall>n \<in> set (S1 @ S2). bound_key n = None" using S1 S2 by auto
  ultimately show ?case by blast
qed

lemma ensureStyles_fields [simp]:
  "props (ensureStyles c) = props c"
  "propsInherit (ensureStyles c) = propsInherit c"
  "bindings (ensureStyles c) = bindings c"
  "initialized (ensureStyles c) = initialized c"
  "templateFn (ensureStyles c) = templateFn c"
  "templateId (ensureStyles c) = templateId c"
  "styles (ensureStyles c) = styles c"
  "stylesIsPath (ensureStyles c) = stylesIsPath c"
  "(shadowRoot (ensureStyles c) = None) = (shadowRoot c = None)"
  by (simp_all add: ensureStyles_def split: option.splits)

lemma ensureStyles_content:
  "\<exists>S. content (ensureStyles c) = content c @ S \<and> (\<forall>n \<in> set S. bound_key n = None)"
proof (cases "shadowRoot c = None \<or> styles c = None")
  case True
  then have "content (ensureStyles c) = content c @ []"
    by (auto simp: ensureStyles_def)
  then show ?thesis by (metis empty_iff list.set(1))
next
  case False
  then obtain ss where "ensureStyles c = fold add_style ss c"
    by (auto simp: ensureStyles_def)
  then show ?thesis using fold_add_style_content [of ss c] by simp
qed

lemma call_templateFn_fields [simp]:
  "props (snd (call_templateFn pf tf c)) = props c"
  "propsInherit (snd (call_templateFn pf tf c)) = propsInherit c"
  "bindings (snd (call_templateFn pf tf c)) = bindings c"
  "initialized (snd (call_templateFn pf tf c)) = initialized c"
  "templateFn (snd (call_templateFn pf tf c)) = templateFn c"
  "templateId (snd (call_templateFn pf tf c)) = templateId c"
  "styles (snd (call_templateFn pf tf c)) = styles c"
  "stylesIsPath (snd (call_templateFn pf tf c)) = stylesIsPath c"
  "styleAdded (snd (call_templateFn pf tf c)) = styleAdded c"
  "shadowRoot (snd (call_templateFn pf tf c)) = shadowRoot c"
  "content (snd (call_templateFn pf tf c)) = content c"
  by (simp_all add: call_templateFn_def Let_def content_def split: template_fn.splits option.splits)

lemma call_templateFn_html:
  assumes "props c' = props c" and "propsInherit c' = propsInherit c"
    and "templateId c' = templateId c"
  shows "fst (call_templateFn pf tf c') = fst (call_templateFn pf tf c)"
proof -
  have "prop_get c' = prop_get c" by (rule ext) (simp add: prop_get_def assms)
  then show ?thesis
    by (simp add: call_templateFn_def Let_def assms split: template_fn.splits option.splits)
qed

lemma insert_markup_fields [simp]:
  "props (insert_markup pf m c) = props c"
  "propsInherit (insert_markup pf m c) = propsInherit c"
  "bindings (insert_markup pf m c) = bindings c"
  "initialized (insert_markup pf m c) = initialized c"
  "templateFn (insert_markup pf m c) = templateFn c"
  "templateId (insert_markup pf m c) = templateId c"
  "styles (insert_markup pf m c) = styles c"
  "stylesIsPath (insert_markup pf m c) = stylesIsPath c"
  "styleAdded (insert_markup pf m c) = styleAdded c"
  "(shadowRoot (insert_markup pf m c) = None) = (shadowRoot c = None)"
  "effects (insert_markup pf m c) = effects c @ [MarkupInserted m]"
  by (simp_all add: insert_markup_def)

lemma content_bindings_update [simp]: "content (c\<lparr>bindings := b\<rparr>) = content c"
  by (simp add: content_def)

lemma content_initialized_update [simp]: "content (c\<lparr>initialized := b\<rparr>) = content c"
  by (simp add: content_def)

lemma prop_get_bindings_update [simp]: "prop_get (c\<lparr>bindings := b\<rparr>) k = prop_get c k"
  by (simp add: prop_get_def)

lemma bind_el_alt:
  "bind_el pf el c =
     (if shadowRoot c = None then c
      else case bound_key (content c ! el) of
             None \<Rightarrow> c
           | Some key \<Rightarrow>
               if key = [] then c
               else set_textContent (display pf (prop_get c key)) el
                      (c\<lparr>bindings := bindings_push key el (bindings c)\<rparr>))"
  by (simp add: bind_el_def content_def split: option.splits)

lemma shadowRoot_bindings_update [simp]: "shadowRoot (c\<lparr>bindings := b\<rparr>) = shadowRoot c"
  by simp

lemma bind_el_fields [simp]:
  "props (bind_el pf el c) = props c"
  "propsInherit (bind_el pf el c) = propsInherit c"
  "initialized (bind_el pf el c) = initialized c"
  "templateFn (bind_el pf el c) = templateFn c"
  "templateId (bind_el pf el c) = templateId c"
  "styles (bind_el pf el c) = styles c"
  "stylesIsPath (bind_el pf el c) = stylesIsPath c"
  "styleAdded (bind_el pf el c) = styleAdded c"
  "(shadowRoot (bind_el pf el c) = None) = (shadowRoot c = None)"
  "length (content (bind_el pf el c)) = length (content c)"
  "bound_key (content (bind_el pf el c) ! i) = bound_key (content c ! i)"
  "prop_get (bind_el pf el c) k = prop_get c k"
  by (simp_all add: bind_el_alt split: option.splits del: not_None_eq)

lemma bind_el_bindings:
  "shadowRoot c \<noteq> None \<Longrightarrow>
   bindings (bind_el pf el c) =
     (case bound_key (content c ! el) of
        None \<Rightarrow> bindings c
      | Some k \<Rightarrow> if k = [] then bindings c else bindings_push k el (bindings c))"
  by (auto simp: bind_el_alt split: option.splits)

lemma bind_el_other:
  "i \<noteq> el \<Longrightarrow> content (bind_el pf el c) ! i = content c ! i"
  by (simp add: bind_el_alt split: option.splits)

lemma bind_el_written:
  "shadowRoot c \<noteq> None \<Longrightarrow> el < length (content c) \<Longrightarrow>
   bound_key (content c ! el) = Some k \<Longrightarrow> k \<noteq> [] \<Longrightarrow>
   textContent (content (bind_el pf el c) ! el) = display pf (prop_get c k)"
  by (auto simp: bind_el_alt textContent_write_text)

lemma bind_el_effects:
  "\<exists>ws. effects (bind_el pf el c) = effects c @ ws \<and> (\<forall>e \<in> set ws. \<exists>i s. e = TextContentSet i s)"
proof -
  have "effects (bind_el pf el c) = effects c @ []
        \<or> (\<exists>s. effects (bind_el pf el c) = effects c @ [TextContentSet el s])"
    by (simp add: bind_el_alt split: option.splits)
  then show ?thesis by (metis empty_iff list.set(1) set_ConsD)
qed

lemma fold_bind_el_fields [simp]:
  "props (fold (bind_el pf) els c) = props c"
  "propsInherit (fold (bind_el pf) els c) = propsInherit c"
  "initialized (fold (bind_el pf) els c) = initialized c"
  "templateFn (fold (bind_el pf) els c) = templateFn c"
  "templateId (fold (bind_el pf) els c) = templateId c"
  "styles (fold (bind_el pf) els c) = styles c"
  "stylesIsPath (fold (bind_el pf) els c) = stylesIsPath c"
  "styleAdded (fold (bind_el pf) els c) = styleAdded c"
  "(shadowRoot (fold (bind_el pf) els c) = None) = (shadowRoot c = None)"
  "length (content (fold (bind_el pf) els c)) = length (content c)"
  "bound_key (content (fold (bind_el pf) els c) ! i) = bound_key (content c ! i)"
  "prop_get (fold (bind_el pf) els c) k = prop_get c k"
  by (induction els arbitrary: c) simp_all

lemma fold_bind_el_other:
  "i \<notin> set els \<Longrightarrow> content (fold (bind_el pf) els c) ! i = content c ! i"
  by (induction els arbitrary: c) (auto simp: bind_el_other)

lemma fold_bind_el_written:
  "shadowRoot c \<noteq> None \<Longrightarrow> distinct els \<Longrightarrow> el \<in> set els \<Longrightarrow> el < length (content c) \<Longrightarrow>
   bound_key (content c ! el) = Some k \<Longrightarrow> k \<noteq> [] \<Longrightarrow>
   textContent (content (fold (bind_el pf) els c) ! el) = display pf (prop_get c k)"
proof (induction els arbitrary: c)
  case Nil
  then show ?case by simp
next
  case (Cons e els)
  show ?case
  proof (cases "el = e")
    case True
    with Cons.prems have "el \<notin> set els" by simp
    then show ?thesis
      using Cons.prems True by (simp add: fold_bind_el_other bind_el_written)
  next
    case False
    with Cons.prems have "el \<in> set els" "distinct els" by simp_all
    then show ?thesis
      using Cons.IH [where c = "bind_el pf e c"] Cons.prems by simp
  qed
qed

lemma fold_bind_el_effects:
  "\<exists>ws. effects (fold (bind_el pf) els c) = effects c @ ws
        \<and> (\<forall>e \<in> set ws. \<exists>i s. e = TextContentSet i s)"
proof (induction els arbitrary: c)
  case Nil
  have "effects c = effects c @ []" by simp
  then show ?case by (metis empty_iff fold_simps(1) list.set(1))
next
  case (Cons e els)
  from bind_el_effects obtain w1 where w1: "effects (bind_el pf e c) = effects c @ w1"
    "\<forall>e \<in> set w1. \<exists>i s. e = TextContentSet i s" by blast
  from Cons [where c = "bind_el pf e c"] obtain w2
    where w2: "effects (fold (bind_el pf) els (bind_el pf e c)) = effects (bind_el pf e c) @ w2"
      "\<forall>e \<in> set w2. \<exists>i s. e = TextContentSet i s" by blast
  have "effects (fold (bind_el pf) (e # els) c) = effects c @ (w1 @ w2)" using w1 w2 by simp
  moreover have "\<forall>e \<in> set (w1 @ w2). \<exists>i s. e = TextContentSet i s" using w1 w2 by auto
  ultimately show ?case by blast
qed

lemma map_of_push_present:
  "map_of (map (\<lambda>(k', els). if k' = k then (k', els @ [el]) else (k', els)) bs) p
     = (if p = k then map_option (\<lambda>els. els @ [el]) (map_of bs p) else map_of bs p)"
  by (induction bs) auto

lemma bindings_get_push:
  "bindings_get (bindings_push k el bs) p
     = (if p = k then bindings_get bs p @ [el] else bindings_get bs p)"
proof (cases "k \<in> set (map fst bs)")
  case True
  then obtain els where "map_of bs k = Some els"
    by (metis map_of_eq_None_iff not_None_eq set_map)
  with True show ?thesis
    by (auto simp: bindings_get_def bindings_push_def map_of_push_present split: option.splits)
next
  case False
  then have "map_of bs k = None" by (simp add: map_of_eq_None_iff)
  with False show ?thesis
    by (auto simp: bindings_get_def bindings_push_def map_add_def split: option.splits)
qed

lemma bindings_push_mem:
  assumes "(k', els') \<in> set (bindings_push k el bs)" and "e \<in> set els'"
  shows "(\<exists>els0. (k', els0) \<in> set bs \<and> e \<in> set els0) \<or> (k' = k \<and> e = el)"
  using assms by (auto simp: bindings_push_def split: if_splits)

lemma well_bound_bind_el:
  assumes "well_bound c" and "el < length (content c)"
  shows "well_bound (bind_el pf el c)"
proof -
  from assms(1) have sr: "shadowRoot c \<noteq> None" by (simp add: well_bound_def)
  have "e < length (content c) \<and> bound_key (content c ! e) = Some k'"
    if "(k', els') \<in> set (bindings (bind_el pf el c))" and "e \<in> set els'" for k' els' e
  proof (cases "bound_key (content c ! el)")
    case None
    with that sr assms(1) show ?thesis by (auto simp: bind_el_bindings well_bound_def)
  next
    case (Some k)
    show ?thesis
    proof (cases "k = []")
      case True
      with that sr Some assms(1) show ?thesis by (auto simp: bind_el_bindings well_bound_def)
    next
      case False
      with that sr Some have "(k', els') \<in> set (bindings_push k el (bindings c))"
        by (simp add: bind_el_bindings)
      from bindings_push_mem [OF this that(2)] Some assms show ?thesis
        by (auto simp: well_bound_def)
    qed
  qed
  then show ?thesis using sr by (auto simp: well_bound_def)
qed

lemma well_bound_fold_bind_el:
  "well_bound c \<Longrightarrow> \<forall>el \<in> set els. el < length (content c) \<Longrightarrow> well_bound (fold (bind_el pf) els c)"
  by (induction els arbitrary: c) (simp_all add: well_bound_bind_el)

lemma fold_bind_el_get:
  "shadowRoot c \<noteq> None \<Longrightarrow> p \<noteq> [] \<Longrightarrow>
   bindings_get (bindings (fold (bind_el pf) els c)) p
     = bindings_get (bindings c) p @ filter (\<lambda>i. bound_key (content c ! i) = Some p) els"
proof (induction els arbitrary: c)
  case Nil
  then show ?case by simp
next
  case (Cons e els)
  have "bindings_get (bindings (bind_el pf e c)) p
        = bindings_get (bindings c) p @ filter (\<lambda>i. bound_key (content c ! i) = Some p) [e]"
    using Cons.prems by (auto simp: bind_el_bindings bindings_get_push split: option.splits)
  then show ?case using Cons.IH [where c = "bind_el pf e c"] Cons.prems by simp
qed

lemma filter_upt_nth:
  "map ((!) xs) (filter (\<lambda>i. P (xs ! i)) [0..<length xs]) = filter P xs"
proof (induction xs rule: rev_induct)
  case Nil
  then show ?case by simp
next
  case (snoc x xs)
  have "filter (\<lambda>i. P ((xs @ [x]) ! i)) [0..<length xs] = filter (\<lambda>i. P (xs ! i)) [0..<length xs]"
    by (rule filter_cong) (auto simp: nth_append)
  moreover have "map ((!) (xs @ [x])) (filter (\<lambda>i. P (xs ! i)) [0..<length xs])
      = map ((!) xs) (filter (\<lambda>i. P (xs ! i)) [0..<length xs])"
    by (rule map_cong) (auto simp: nth_append)
  ultimately show ?case using snoc by simp
qed

lemma length_filter_upt_nth:
  "length (filter (\<lambda>i. P (xs ! i)) [0..<length xs]) = length (filter P xs)"
  using arg_cong [OF filter_upt_nth [of xs P], of length] by simp


lemma render_first:
  assumes "shadowRoot c \<noteq> None" and "templateFn c = Some tf" and "\<not> initialized c"
  shows "render pf c =
           (fold (bind_el pf)
              (boundEls (content (insert_markup pf
                 (replace_placeholders (fst (call_templateFn pf tf (ensureStyles c))))
                 (snd (call_templateFn pf tf (ensureStyles c))))))
              (insert_markup pf
                 (replace_placeholders (fst (call_templateFn pf tf (ensureStyles c))))
                 (snd (call_templateFn pf tf (ensureStyles c)))))\<lparr>initialized := True\<rparr>"
  using assms by (auto simp: render_def Let_def case_prod_beta)

lemma proxy_set_uninit: "\<not> initialized c \<Longrightarrow> proxy_set pf k v c = reflect_set k v c"
  by (simp add: proxy_set_def)

lemma fold_proxy_set_uninit:
  "\<not> initialized c \<Longrightarrow>
   shadowRoot (fold (\<lambda>(k, v). proxy_set pf k v) ps c) = shadowRoot c
   \<and> bindings (fold (\<lambda>(k, v). proxy_set pf k v) ps c) = bindings c
   \<and> \<not> initialized (fold (\<lambda>(k, v). proxy_set pf k v) ps c)
   \<and> styleAdded (fold (\<lambda>(k, v). proxy_set pf k v) ps c) = styleAdded c
   \<and> effects (fold (\<lambda>(k, v). proxy_set pf k v) ps c) = effects c"
  by (induction ps arbitrary: c) (auto simp: proxy_set_uninit)

lemma BaseComponent_fresh:
  "shadowRoot (BaseComponent pf t ip st) = Some []"
  "bindings (BaseComponent pf t ip st) = []"
  "\<not> initialized (BaseComponent pf t ip st)"
  "styleAdded (BaseComponent pf t ip st) = {}"
  "effects (BaseComponent pf t ip st) = []"
  by (auto simp: BaseComponent_def Let_def fold_proxy_set_uninit
      split: option.splits template_arg.splits)

lemma filter_bound_upt:
  "filter (\<lambda>i. bound_key (sh ! i) = Some p) (boundEls sh)
     = filter (\<lambda>i. bound_key (sh ! i) = Some p) [0..<length sh]"
  unfolding boundEls_def filter_filter by (rule filter_cong) auto

lemma distinct_boundEls: "distinct (boundEls sh)"
  by (simp add: boundEls_def)

lemma boundEls_valid: "el \<in> set (boundEls sh) \<Longrightarrow> el < length sh"
  by (simp add: boundEls_def)

lemma length_filter_map:
  "length (filter P (map f xs)) = length (filter (\<lambda>n. P (f n)) xs)"
  by (induction xs) auto

lemma raw_after_styles:
  "templateFn c = Some tf \<Longrightarrow> fst (call_templateFn pf tf (ensureStyles c)) = rawHtml pf c"
  using call_templateFn_html [where c' = "ensureStyles c" and c = c and pf = pf and tf = tf]
  by (simp add: rawHtml_def)

lemma first_render:
  assumes sr: "shadowRoot c \<noteq> None" and tf: "templateFn c = Some tf" and ni: "\<not> initialized c"
    and nb: "bindings c = []"
  shows "initialized (render pf c)" and "well_bound (render pf c)"
    and "props (render pf c) = props c"
    and "p \<noteq> [] \<Longrightarrow> bindings_get (bindings (render pf c)) p
           = filter (\<lambda>i. bound_key (content (render pf c) ! i) = Some p)
               [0..<length (content (render pf c))]"
    and "p \<noteq> [] \<Longrightarrow> el \<in> set (bindings_get (bindings (render pf c)) p) \<Longrightarrow>
           textContent (content (render pf c) ! el) = display pf (prop_get c p)"
    and "map bound_key (content (render pf c))
           = map bound_key (parseHTML pf (rendered_markup pf c))"
    and "prop_get (render pf c) k = prop_get c k"
proof -
  define c2 where "c2 = snd (call_templateFn pf tf (ensureStyles c))"
  define c3 where "c3 = insert_markup pf
      (replace_placeholders (fst (call_templateFn pf tf (ensureStyles c)))) c2"
  have r: "render pf c = (fold (bind_el pf) (boundEls (content c3)) c3)\<lparr>initialized := True\<rparr>"
    using render_first [OF sr tf ni] by (simp add: c3_def c2_def)
  have sr3: "shadowRoot c3 \<noteq> None" using sr by (simp add: c3_def c2_def)
  have b3: "bindings c3 = []" using nb by (simp add: c3_def c2_def)
  have p3: "prop_get c3 k = prop_get c k" for k by (simp add: c3_def c2_def prop_get_def)
  have wb3: "well_bound c3" using sr3 b3 by (simp add: well_bound_def)
  have cr: "content (render pf c) = content (fold (bind_el pf) (boundEls (content c3)) c3)"
    by (simp add: r)
  have keys: "bound_key (content (render pf c) ! i) = bound_key (content c3 ! i)" for i
    by (simp add: cr)
  have len: "length (content (render pf c)) = length (content c3)" by (simp add: cr)
  show "initialized (render pf c)" by (simp add: r)
  have "well_bound (fold (bind_el pf) (boundEls (content c3)) c3)"
    by (rule well_bound_fold_bind_el [OF wb3]) (simp add: boundEls_valid)
  then show "well_bound (render pf c)" by (simp add: r well_bound_def content_def)
  show "props (render pf c) = props c" by (simp add: r c3_def c2_def)
  show "prop_get (render pf c) k = prop_get c k"
    by (simp add: r c3_def c2_def prop_get_def)
  have get: "bindings_get (bindings (render pf c)) p
           = filter (\<lambda>i. bound_key (content c3 ! i) = Some p) [0..<length (content c3)]"
    if "p \<noteq> []"
    using fold_bind_el_get [OF sr3 that, where pf = pf and els = "boundEls (content c3)"]
    by (simp add: r b3 bindings_get_def filter_bound_upt)
  then show "p \<noteq> [] \<Longrightarrow> bindings_get (bindings (render pf c)) p
           = filter (\<lambda>i. bound_key (content (render pf c) ! i) = Some p)
               [0..<length (content (render pf c))]"
    by (simp add: keys len)
  show "textContent (content (render pf c) ! el) = display pf (prop_get c p)"
    if "p \<noteq> []" and "el \<in> set (bindings_get (bindings (render pf c)) p)"
  proof -
    from that get have el: "el < length (content c3)" "bound_key (content c3 ! el) = Some p"
      by auto
    then have "el \<in> set (boundEls (content c3))" by (simp add: boundEls_def)
    from fold_bind_el_written [OF sr3 distinct_boundEls this el that(1)]
    show ?thesis by (simp add: cr p3)
  qed
  show "map bound_key (content (render pf c))
           = map bound_key (parseHTML pf (rendered_markup pf c))"
  proof -
    from sr obtain sh where sh: "shadowRoot (ensureStyles c) = Some sh"
      by (cases "shadowRoot (ensureStyles c)") simp_all
    have "content c3 = parseHTML pf (serializeHTML pf (content (ensureStyles c))
        @ replace_placeholders (rawHtml pf c))"
      using sh by (simp add: c3_def c2_def insert_markup_def content_def raw_after_styles [OF tf])
    then have "content c3 = parseHTML pf (rendered_markup pf c)"
      by (simp add: rendered_markup_def)
    moreover have "map bound_key (content (render pf c)) = map bound_key (content c3)"
      by (simp add: list_eq_iff_nth_eq len keys)
    ultimately show ?thesis by simp
  qed
qed

lemma creations_append [simp]: "creations (xs @ ys) = creations xs @ creations ys"
  by (simp add: creations_def)

lemma materializations_append [simp]:
  "materializations (xs @ ys) = materializations xs + materializations ys"
  by (simp add: materializations_def)

lemma dispatched_append [simp]: "dispatched (xs @ ys) = dispatched xs @ dispatched ys"
  by (simp add: dispatched_def)

lemma text_updates_append [simp]:
  "text_updates el (xs @ ys) = text_updates el xs @ text_updates el ys"
  by (simp add: text_updates_def)

lemma writes_only [simp]:
  "creations (map (\<lambda>el. TextContentSet el s) els) = []"
  "materializations (map (\<lambda>el. TextContentSet el s) els) = 0"
  "dispatched (map (\<lambda>el. TextContentSet el s) els) = []"
  by (induction els) (simp_all add: creations_def materializations_def dispatched_def)

lemma text_only:
  assumes "\<forall>e \<in> set ws. \<exists>i s. e = TextContentSet i s"
  shows "creations ws = []" and "materializations ws = 0" and "dispatched ws = []"
  using assms
  by (induction ws) (auto simp: creations_def materializations_def dispatched_def)

lemma text_updates_writes:
  "text_updates el (map (\<lambda>e. TextContentSet e s) els) = replicate (count_list els el) s"
  by (induction els) (simp_all add: text_updates_def)

lemma proxy_set_init:
  assumes "initialized c" and "shadowRoot c \<noteq> None" and "p \<noteq> []"
  shows "proxy_set pf p v c
           = update_els pf p (bindings_get (bindings c) p) (reflect_set p v c)"
  using assms by (auto simp: proxy_set_def Let_def updateBindings_def)

lemma proxy_set_effects:
  assumes "initialized c" and "shadowRoot c \<noteq> None" and "p \<noteq> []"
  shows "effects (proxy_set pf p v c)
           = effects c @ map (\<lambda>el. TextContentSet el (display pf (prop_get (proxy_set pf p v c) p)))
               (bindings_get (bindings c) p)"
proof -
  have "effects (update_els pf p (bindings_get (bindings c) p) (reflect_set p v c))
      = effects c @ map (\<lambda>el. TextContentSet el (display pf (prop_get (reflect_set p v c) p)))
               (bindings_get (bindings c) p)"
    by simp
  then show ?thesis by (simp add: proxy_set_init [OF assms])
qed



lemma add_style_effects [simp]:
  "materializations (effects (add_style s c)) = materializations (effects c)"
  "dispatched (effects (add_style s c)) = dispatched (effects c)"
  by (simp_all add: add_style_def Let_def materializations_def dispatched_def)

lemma fold_add_style_effects [simp]:
  "materializations (effects (fold add_style ss c)) = materializations (effects c)"
  "dispatched (effects (fold add_style ss c)) = dispatched (effects c)"
  by (induction ss arbitrary: c) simp_all

lemma ensureStyles_effects [simp]:
  "materializations (effects (ensureStyles c)) = materializations (effects c)"
  "dispatched (effects (ensureStyles c)) = dispatched (effects c)"
  by (simp_all add: ensureStyles_def split: option.splits)

lemma call_templateFn_effects [simp]:
  "materializations (effects (snd (call_templateFn pf tf c))) = materializations (effects c) + 1"
  "dispatched (effects (snd (call_templateFn pf tf c))) = dispatched (effects c)"
  by (simp_all add: call_templateFn_def Let_def materializations_def dispatched_def
      split: template_fn.splits option.splits)

lemma fold_bind_el_effects_counts [simp]:
  "materializations (effects (fold (bind_el pf) els c)) = materializations (effects c)"
  "dispatched (effects (fold (bind_el pf) els c)) = dispatched (effects c)"
proof -
  from fold_bind_el_effects [where els = els and c = c and pf = pf] obtain ws
    where ws: "effects (fold (bind_el pf) els c) = effects c @ ws"
      "\<forall>e \<in> set ws. \<exists>i s. e = TextContentSet i s" by blast
  show "materializations (effects (fold (bind_el pf) els c)) = materializations (effects c)"
    "dispatched (effects (fold (bind_el pf) els c)) = dispatched (effects c)"
    using text_only [OF ws(2)] by (simp_all add: ws(1))
qed

lemma first_render_effects:
  assumes "shadowRoot c \<noteq> None" and "templateFn c = Some tf" and "\<not> initialized c"
  shows "materializations (effects (render pf c)) = materializations (effects c) + 1"
    and "dispatched (effects (render pf c)) = dispatched (effects c)"
proof -
  have m: "materializations [MarkupInserted x] = 0" "dispatched [MarkupInserted x] = []" for x
    by (simp_all add: materializations_def dispatched_def)
  show "materializations (effects (render pf c)) = materializations (effects c) + 1"
    "dispatched (effects (render pf c)) = dispatched (effects c)"
    by (simp_all add: render_first [OF assms] m)
qed



lemma emit_fields [simp]:
  "props (emit n d c) = props c"
  "propsInherit (emit n d c) = propsInherit c"
  "bindings (emit n d c) = bindings c"
  "initialized (emit n d c) = initialized c"
  "shadowRoot (emit n d c) = shadowRoot c"
  "content (emit n d c) = content c"
  "effects (emit n d c) = effects c @ [EventDispatched n d]"
  "prop_get (emit n d c) k = prop_get c k"
  "bound_texts (emit n d c) k = bound_texts c k"
  by (simp_all add: emit_def content_def prop_get_def bound_texts_def)

lemma well_bound_emit: "well_bound (emit n d c) = well_bound c"
  by (simp add: well_bound_def)

lemma proxy_set_effects_any:
  "effects (proxy_set pf p v c) =
     effects c @ (if initialized c \<and> shadowRoot c \<noteq> None
                  then map (\<lambda>el. TextContentSet el (display pf (prop_get (proxy_set pf p v c) p)))
                         (bindings_get (bindings c) p)
                  else [])"
  if "p \<noteq> []"
proof (cases "initialized c \<and> shadowRoot c \<noteq> None")
  case True
  then show ?thesis
    using proxy_set_effects [where c = c and p = p and pf = pf and v = v] that by simp
next
  case False
  then show ?thesis by (auto simp: proxy_set_def Let_def updateBindings_def)
qed

lemma increment_step:
  assumes "well_bound c" and "initialized c \<or> bindings c = []"
    and "prop_get c ''count'' = Prim (JNumber (Num n))" and "safe n" and "safe (n + 1)"
  shows "prop_get (increment pf c) ''count'' = Prim (JNumber (Num (n + 1)))"
    and "well_bound (increment pf c)"
    and "initialized (increment pf c) \<or> bindings (increment pf c) = []"
    and "bindings (increment pf c) = bindings c"
    and "initialized (increment pf c) = initialized c"
    and "effects (increment pf c) = effects c @
           (if initialized c
            then map (\<lambda>el. TextContentSet el (num_to_string pf (Num (n + 1))))
                   (bindings_get (bindings c) ''count'')
            else []) @
           [EventDispatched ''incremented'' (Prim (JNumber (Num (n + 1))))]"
    and "\<forall>t \<in> set (bound_texts (increment pf c) ''count''). t = num_to_string pf (Num (n + 1))"
proof -
  let ?v = "JNumber (Num (n + 1))"
  have plus: "js_plus pf (prop_get c ''count'') (Prim (JNumber (Num 1))) = ?v"
    using assms(4,5) by (simp add: assms(3) safe_def)
  have got: "prop_get (proxy_set pf ''count'' ?v c) ''count'' = Prim ?v"
    by (simp add: prop_get_reflect_set)
  have inc: "increment pf c = emit ''incremented'' (Prim ?v) (proxy_set pf ''count'' ?v c)"
    unfolding increment_def Let_def plus got ..
  from assms(1) have sr: "shadowRoot c \<noteq> None" by (simp add: well_bound_def)
  have d: "display pf (Prim ?v) = num_to_string pf (Num (n + 1))" by (simp add: display_def)
  show "prop_get (increment pf c) ''count'' = Prim ?v" by (simp add: inc got del: proxy_set_fields)
  show "well_bound (increment pf c)"
    using assms(1) by (simp add: inc well_bound_emit well_bound_proxy_set)
  show "initialized (increment pf c) \<or> bindings (increment pf c) = []"
    using assms(2) by (simp add: inc)
  show "bindings (increment pf c) = bindings c" by (simp add: inc)
  show "initialized (increment pf c) = initialized c" by (simp add: inc)
  show "effects (increment pf c) = effects c @
           (if initialized c
            then map (\<lambda>el. TextContentSet el (num_to_string pf (Num (n + 1))))
                   (bindings_get (bindings c) ''count'')
            else []) @
           [EventDispatched ''incremented'' (Prim ?v)]"
    using sr by (simp add: inc proxy_set_effects_any got d del: proxy_set_fields(11))
  show "\<forall>t \<in> set (bound_texts (increment pf c) ''count''). t = num_to_string pf (Num (n + 1))"
  proof (cases "initialized c")
    case True
    have "textContent (content (proxy_set pf ''count'' ?v c) ! el) = display pf (Prim ?v)"
      if "el \<in> set (bindings_get (bindings c) ''count'')" for el
      using proxy_set_texts [OF assms(1) True that, where pf = pf and v = ?v] unfolding got .
    then show ?thesis by (auto simp: inc bound_texts_def d)
  next
    case False
    with assms(2) show ?thesis by (simp add: inc bound_texts_def bindings_get_def)
  qed
qed

lemma ExampleComponent_props:
  "props (ExampleComponent pf t b s) =
     [''count'' \<mapsto> JNumber (Num 0), ''label'' \<mapsto> JString ''Counter'', ''active'' \<mapsto> JBool False]"
  "propsInherit (ExampleComponent pf t b s)"
  "templateFn (ExampleComponent pf t b s) = Some (Fn (\<lambda>locals. t))"
  by (simp_all add: ExampleComponent_def BaseComponent_def Let_def proxy_set_def reflect_set_def)

lemma small_numerals:
  "num_to_string pf (Num (0 + 1)) = ''1''"
  "num_to_string pf (Num (0 + 1 + 1)) = ''2''"
  "num_to_string pf (Num (0 + 1 + 1 + 1)) = ''3''"
  by (simp_all add: nat_digits.simps digit_char_def safe_def)

lemma content_effects_update [simp]: "content (c\<lparr>effects := e\<rparr>) = content c"
  by (simp add: content_def)

subsection \<open>Claims\<close>




text \<open>
  Claim C2, as amended. When the old and the new attribute value differ and the
  attribute is not \<^verbatim>\<open>__proto__\<close>, the prop is set to the new value coerced by the type of
  the prop's current value: for a boolean, whether the attribute is present; for a
  number, \<^verbatim>\<open>Number(newValue)\<close>, whatever the platform makes of the string (and zero for an
  absent attribute); otherwise the raw value. Once the component is rendered, every
  element bound to the prop shows the string form of the new value: \<^verbatim>\<open>true\<close> or
  \<^verbatim>\<open>false\<close>, the string form of the number, which is \<^verbatim>\<open>NaN\<close> when the platform makes
  no number of the string, or the raw string (nothing, for an absent attribute).
\<close>

theorem attribute_coercion:
  assumes "oldValue \<noteq> newValue" and "name \<noteq> ''__proto__''"
  shows "prop_get (attributeChangedCallback pf name oldValue newValue c) name =
           Prim (case prop_get c name of
                   Prim (JBool b) \<Rightarrow> JBool (newValue \<noteq> None)
                 | Prim (JNumber n) \<Rightarrow>
                     JNumber (case newValue of None \<Rightarrow> Num 0 | Some s \<Rightarrow> StringToNumber pf s)
                 | _ \<Rightarrow> (case newValue of None \<Rightarrow> JNull | Some s \<Rightarrow> JString s))
         \<and> (well_bound c \<and> initialized c \<longrightarrow>
              (\<forall>t \<in> set (bound_texts (attributeChangedCallback pf name oldValue newValue c) name).
                 t = (case prop_get c name of
                        Prim (JBool b) \<Rightarrow> (if newValue \<noteq> None then ''true'' else ''false'')
                      | Prim (JNumber n) \<Rightarrow>
                          num_to_string pf
                            (case newValue of None \<Rightarrow> Num 0 | Some s \<Rightarrow> StringToNumber pf s)
                      | _ \<Rightarrow> (case newValue of None \<Rightarrow> [] | Some s \<Rightarrow> s))))
         \<and> (\<forall>n s. well_bound c \<and> initialized c \<and> prop_get c name = Prim (JNumber n)
                \<and> newValue = Some s \<and> StringToNumber pf s = NaN \<longrightarrow>
              (\<forall>t \<in> set (bound_texts (attributeChangedCallback pf name oldValue newValue c) name).
                 t = ''NaN''))"
proof -
  let ?c' = "attributeChangedCallback pf name oldValue newValue c"
  let ?v = "case prop_get c name of
              Prim (JBool b) \<Rightarrow> JBool (newValue \<noteq> None)
            | Prim (JNumber n) \<Rightarrow>
                JNumber (case newValue of None \<Rightarrow> Num 0 | Some s \<Rightarrow> StringToNumber pf s)
            | _ \<Rightarrow> (case newValue of None \<Rightarrow> JNull | Some s \<Rightarrow> JString s)"
  let ?t = "case prop_get c name of
              Prim (JBool b) \<Rightarrow> (if newValue \<noteq> None then ''true'' else ''false'')
            | Prim (JNumber n) \<Rightarrow>
                num_to_string pf
                  (case newValue of None \<Rightarrow> Num 0 | Some s \<Rightarrow> StringToNumber pf s)
            | _ \<Rightarrow> (case newValue of None \<Rightarrow> [] | Some s \<Rightarrow> s)"
  have v: "prop_get ?c' name = Prim ?v"
    using attributeChanged_value [OF assms(1), of name c pf] assms(2)
    by (simp split: jsany.splits jsval.splits)
  have d: "display pf (Prim ?v) = ?t"
    by (simp add: display_def split: option.splits jsany.splits jsval.splits)
  have shown: "\<forall>t \<in> set (bound_texts ?c' name). t = ?t" if "well_bound c \<and> initialized c"
    using attributeChanged_shown [OF assms(1), of c _ pf name] that unfolding v d by blast
  have nan: "\<forall>t \<in> set (bound_texts ?c' name). t = ''NaN''"
    if "well_bound c \<and> initialized c \<and> prop_get c name = Prim (JNumber n)
        \<and> newValue = Some s \<and> StringToNumber pf s = NaN" for n s
    using shown that by simp
  show ?thesis using v shown nan by blast
qed

theorem attribute_coercion_witness:
  "Some ''5'' \<noteq> Some ''abc'' \<and> ''n'' \<noteq> ''__proto__''
   \<and> prop_get (connectedCallback
           (example_platform (\<lambda>m. if m = marker ''n'' then [Parsed (Some ''n'') []] else []))
           (BaseComponent
              (example_platform (\<lambda>m. if m = marker ''n'' then [Parsed (Some ''n'') []] else []))
              (Some (TemplateFunction (\<lambda>locals. ''{{n}}'')))
              (Some [(''n'', JNumber (Num 5))]) None)) ''n'' = Prim (JNumber (Num 5))
   \<and> prop_get (attributeChangedCallback
        (example_platform (\<lambda>m. if m = marker ''n'' then [Parsed (Some ''n'') []] else []))
        ''n'' (Some ''5'') (Some ''abc'')
        (connectedCallback
           (example_platform (\<lambda>m. if m = marker ''n'' then [Parsed (Some ''n'') []] else []))
           (BaseComponent
              (example_platform (\<lambda>m. if m = marker ''n'' then [Parsed (Some ''n'') []] else []))
              (Some (TemplateFunction (\<lambda>locals. ''{{n}}'')))
              (Some [(''n'', JNumber (Num 5))]) None))) ''n'' = Prim (JNumber NaN)
   \<and> bound_texts (attributeChangedCallback
        (example_platform (\<lambda>m. if m = marker ''n'' then [Parsed (Some ''n'') []] else []))
        ''n'' (Some ''5'') (Some ''abc'')
        (connectedCallback
           (example_platform (\<lambda>m. if m = marker ''n'' then [Parsed (Some ''n'') []] else []))
           (BaseComponent
              (example_platform (\<lambda>m. if m = marker ''n'' then [Parsed (Some ''n'') []] else []))
              (Some (TemplateFunction (\<lambda>locals. ''{{n}}'')))
              (Some [(''n'', JNumber (Num 5))]) None))) ''n'' = [''NaN'']"
proof -
  define pf where
    "pf = example_platform (\<lambda>m. if m = marker ''n'' then [Parsed (Some ''n'') []] else [])"
  define c where "c = connectedCallback pf (BaseComponent pf
      (Some (TemplateFunction (\<lambda>locals. ''{{n}}''))) (Some [(''n'', JNumber (Num 5))]) None)"
  have h: "well_bound c \<and> initialized c" unfolding c_def pf_def by code_simp
  have cur: "prop_get c ''n'' = Prim (JNumber (Num 5))" unfolding c_def pf_def by code_simp
  have sn: "StringToNumber pf ''abc'' = NaN" by (simp add: pf_def)
  let ?c' = "attributeChangedCallback pf ''n'' (Some ''5'') (Some ''abc'') c"
  have ne: "Some ''5'' \<noteq> Some ''abc''" by simp
  have np: "''n'' \<noteq> ''__proto__''" by simp
  note ac = attribute_coercion [OF ne np, of pf c]
  have v: "prop_get ?c' ''n'' = Prim (JNumber NaN)"
    using ac [THEN conjunct1] by (simp add: cur sn)
  have all: "\<forall>t \<in> set (bound_texts ?c' ''n''). t = ''NaN''"
    using ac [THEN conjunct2, THEN conjunct1] h by (simp add: cur sn)
  have "length (bound_texts ?c' ''n'') = 1" unfolding c_def pf_def by code_simp
  with all have "bound_texts ?c' ''n'' = [''NaN'']"
    by (cases "bound_texts ?c' ''n''") auto
  with v cur ne np show ?thesis unfolding c_def pf_def by blast
qed

text \<open>
  Claim C2 as stated fails for the attribute \<^verbatim>\<open>__proto__\<close>. The props object inherits an
  accessor of that name, so the prop reads as an object, the raw string is passed to the
  inherited setter, which ignores it, and no property is stored: the prop reads as
  before.
\<close>

theorem proto_attribute_not_assigned:
  "typeof (prop_get (BaseComponent (example_platform (\<lambda>m. [])) None None None) ''__proto__'')
     = TObject
   \<and> prop_get (attributeChangedCallback (example_platform (\<lambda>m. [])) ''__proto__'' None (Some ''x'')
        (BaseComponent (example_platform (\<lambda>m. [])) None None None)) ''__proto__''
     = Member ''__proto__''
   \<and> props (attributeChangedCallback (example_platform (\<lambda>m. [])) ''__proto__'' None (Some ''x'')
        (BaseComponent (example_platform (\<lambda>m. [])) None None None)) ''__proto__'' = None"
  by code_simp

text \<open>
  Claim C8. The example component starts with count 0, label \<^verbatim>\<open>Counter\<close>, active false.
  Three calls of \<open>increment\<close>, on the component as constructed or after it was attached,
  leave count at 3 and dispatch \<^verbatim>\<open>incremented\<close> with the details 1, 2, 3 in this order,
  each after the texts of its own count were written; every element bound to count
  shows \<^verbatim>\<open>3\<close>. When the component is attached, there is one such element for each
  element with \<^verbatim>\<open>data-bind\<close> equal to \<^verbatim>\<open>count\<close> that the parser finds in the rendered
  markup.
\<close>

theorem example_three_increments:
  assumes c0: "c0 = ExampleComponent pf templateHtml baseStyles styles1"
    and c: "c = c0 \<or> c = connectedCallback pf c0"
    and c3: "c3 = increment pf (increment pf (increment pf c))"
  shows "props c0 = [''count'' \<mapsto> JNumber (Num 0), ''label'' \<mapsto> JString ''Counter'',
                     ''active'' \<mapsto> JBool False]
    \<and> prop_get c3 ''count'' = Prim (JNumber (Num 3))
    \<and> dispatched (effects c3) =
         [(''incremented'', Prim (JNumber (Num 1))), (''incremented'', Prim (JNumber (Num 2))),
          (''incremented'', Prim (JNumber (Num 3)))]
    \<and> effects c3 = effects c @
         (if initialized c
          then map (\<lambda>el. TextContentSet el ''1'') (bindings_get (bindings c) ''count'') else []) @
         [EventDispatched ''incremented'' (Prim (JNumber (Num 1)))] @
         (if initialized c
          then map (\<lambda>el. TextContentSet el ''2'') (bindings_get (bindings c) ''count'') else []) @
         [EventDispatched ''incremented'' (Prim (JNumber (Num 2)))] @
         (if initialized c
          then map (\<lambda>el. TextContentSet el ''3'') (bindings_get (bindings c) ''count'') else []) @
         [EventDispatched ''incremented'' (Prim (JNumber (Num 3)))]
    \<and> (\<forall>t \<in> set (bound_texts c3 ''count''). t = ''3'')
    \<and> (c = connectedCallback pf c0 \<longrightarrow>
         length (bound_texts c3 ''count'')
           = length (filter (\<lambda>n. bound_key n = Some ''count'')
               (parseHTML pf (rendered_markup pf c0))))"
proof -
  have pr: "props c0 = [''count'' \<mapsto> JNumber (Num 0), ''label'' \<mapsto> JString ''Counter'',
                     ''active'' \<mapsto> JBool False]"
    and inh: "propsInherit c0"
    and tf: "templateFn c0 = Some (Fn (\<lambda>locals. templateHtml))"
    by (simp_all add: c0 ExampleComponent_props)
  have fresh: "shadowRoot c0 \<noteq> None" "\<not> initialized c0" "bindings c0 = []" "effects c0 = []"
    by (simp_all add: c0 ExampleComponent_def BaseComponent_fresh)
  note fr = first_render [OF fresh(1) tf fresh(2,3), where pf = pf]
  have "prop_get c0 ''count'' = Prim (JNumber (Num 0))"
    by (simp add: prop_get_def object_get_def pr)
  then have count0: "prop_get c ''count'' = Prim (JNumber (Num 0))"
    using c fr(7) by (auto simp: connectedCallback_def)
  have wb: "well_bound c"
    using c fr(2) fresh by (auto simp: connectedCallback_def well_bound_def)
  have ib: "initialized c \<or> bindings c = []"
    using c fr(1) fresh by (auto simp: connectedCallback_def)
  have quiet: "dispatched (effects c) = []"
    using c first_render_effects(2) [OF fresh(1) tf fresh(2), where pf = pf] fresh(4)
    by (auto simp: connectedCallback_def dispatched_def)
  have safe: "safe 0" "safe (0 + 1)" "safe (0 + 1 + 1)" "safe (0 + 1 + 1 + 1)"
    by (simp_all add: safe_def)
  let ?a = "increment pf c"
  let ?b = "increment pf ?a"
  note s1 = increment_step [OF wb ib count0 safe(1,2), where pf = pf]
  note s2 = increment_step [OF s1(2) s1(3) s1(1) safe(2,3), where pf = pf]
  note s3 = increment_step [OF s2(2) s2(3) s2(1) safe(3,4), where pf = pf]
  have d: "dispatched (EventDispatched n v # es) = (n, v) # dispatched es"
    "dispatched (map (\<lambda>el. TextContentSet el s) els) = []" "dispatched [] = []" for n v s els es
    by (simp_all add: dispatched_def)
  have eff: "effects c3 = effects c @
         (if initialized c
          then map (\<lambda>el. TextContentSet el ''1'') (bindings_get (bindings c) ''count'') else []) @
         [EventDispatched ''incremented'' (Prim (JNumber (Num 1)))] @
         (if initialized c
          then map (\<lambda>el. TextContentSet el ''2'') (bindings_get (bindings c) ''count'') else []) @
         [EventDispatched ''incremented'' (Prim (JNumber (Num 2)))] @
         (if initialized c
          then map (\<lambda>el. TextContentSet el ''3'') (bindings_get (bindings c) ''count'') else []) @
         [EventDispatched ''incremented'' (Prim (JNumber (Num 3)))]"
    unfolding c3 s3(6) s2(6) s1(6) s2(4,5) s1(4,5) small_numerals by simp
  have disp: "dispatched (effects c3) =
         [(''incremented'', Prim (JNumber (Num 1))), (''incremented'', Prim (JNumber (Num 2))),
          (''incremented'', Prim (JNumber (Num 3)))]"
    unfolding eff by (simp add: quiet d)
  have texts: "\<forall>t \<in> set (bound_texts c3 ''count''). t = ''3''"
    using s3(7) unfolding c3 small_numerals .
  have nodes: "length (bound_texts c3 ''count'')
      = length (filter (\<lambda>n. bound_key n = Some ''count'') (parseHTML pf (rendered_markup pf c0)))"
    if "c = connectedCallback pf c0"
  proof -
    have r: "c = render pf c0" using that by (simp add: connectedCallback_def)
    let ?els = "filter (\<lambda>i. bound_key (content c ! i) = Some ''count'') [0..<length (content c)]"
    have "bindings_get (bindings c3) ''count'' = ?els"
      unfolding c3 s3(4) s2(4) s1(4) using fr(4) [of "''count''"] by (simp add: r)
    then have "length (bound_texts c3 ''count'') = length ?els" by (simp add: bound_texts_def)
    also have "\<dots> = length (filter (\<lambda>n. bound_key n = Some ''count'') (content c))"
      by (rule length_filter_upt_nth)
    also have "\<dots> = length (filter (\<lambda>k. k = Some ''count'') (map bound_key (content c)))"
      by (simp only: length_filter_map)
    also have "\<dots> = length (filter (\<lambda>k. k = Some ''count'')
        (map bound_key (parseHTML pf (rendered_markup pf c0))))"
      by (simp only: r fr(6))
    also have "\<dots> = length (filter (\<lambda>n. bound_key n = Some ''count'')
        (parseHTML pf (rendered_markup pf c0)))"
      by (simp only: length_filter_map)
    finally show ?thesis .
  qed
  have three: "prop_get c3 ''count'' = Prim (JNumber (Num 3))"
    using s3(1) by (simp add: c3)
  show ?thesis using pr three disp eff texts nodes by blast
qed

theorem example_three_increments_witness:
  "prop_get (increment
      (example_platform (\<lambda>m. if m = ''<style>b{}</style><style>i{}</style><b>'' @ marker ''count'' @ ''</b>''
         then [Parsed None ''b{}'', Parsed None ''i{}'', Parsed None [], Parsed (Some ''count'') []]
         else []))
      (increment
        (example_platform (\<lambda>m. if m = ''<style>b{}</style><style>i{}</style><b>'' @ marker ''count'' @ ''</b>''
           then [Parsed None ''b{}'', Parsed None ''i{}'', Parsed None [], Parsed (Some ''count'') []]
           else []))
        (increment
          (example_platform (\<lambda>m. if m = ''<style>b{}</style><style>i{}</style><b>'' @ marker ''count'' @ ''</b>''
             then [Parsed None ''b{}'', Parsed None ''i{}'', Parsed None [], Parsed (Some ''count'') []]
             else []))
          (connectedCallback
            (example_platform (\<lambda>m. if m = ''<style>b{}</style><style>i{}</style><b>'' @ marker ''count'' @ ''</b>''
               then [Parsed None ''b{}'', Parsed None ''i{}'', Parsed None [], Parsed (Some ''count'') []]
               else []))
            (ExampleComponent
              (example_platform (\<lambda>m. if m = ''<style>b{}</style><style>i{}</style><b>'' @ marker ''count'' @ ''</b>''
                 then [Parsed None ''b{}'', Parsed None ''i{}'', Parsed None [], Parsed (Some ''count'') []]
                 else []))
              ''<b>{{count}}</b>'' ''b{}'' ''i{}''))))) ''count''
     = Prim (JNumber (Num 3))
   \<and> dispatched (effects (increment
      (example_platform (\<lambda>m. if m = ''<style>b{}</style><style>i{}</style><b>'' @ marker ''count'' @ ''</b>''
         then [Parsed None ''b{}'', Parsed None ''i{}'', Parsed None [], Parsed (Some ''count'') []]
         else []))
      (increment
        (example_platform (\<lambda>m. if m = ''<style>b{}</style><style>i{}</style><b>'' @ marker ''count'' @ ''</b>''
           then [Parsed None ''b{}'', Parsed None ''i{}'', Parsed None [], Parsed (Some ''count'') []]
           else []))
        (increment
          (example_platform (\<lambda>m. if m = ''<style>b{}</style><style>i{}</style><b>'' @ marker ''count'' @ ''</b>''
             then [Parsed None ''b{}'', Parsed None ''i{}'', Parsed None [], Parsed (Some ''count'') []]
             else []))
          (connectedCallback
            (example_platform (\<lambda>m. if m = ''<style>b{}</style><style>i{}</style><b>'' @ marker ''count'' @ ''</b>''
               then [Parsed None ''b{}'', Parsed None ''i{}'', Parsed None [], Parsed (Some ''count'') []]
               else []))
            (ExampleComponent
              (example_platform (\<lambda>m. if m = ''<style>b{}</style><style>i{}</style><b>'' @ marker ''count'' @ ''</b>''
                 then [Parsed None ''b{}'', Parsed None ''i{}'', Parsed None [], Parsed (Some ''count'') []]
                 else []))
              ''<b>{{count}}</b>'' ''b{}'' ''i{}'')))))) =
         [(''incremented'', Prim (JNumber (Num 1))), (''incremented'', Prim (JNumber (Num 2))),
          (''incremented'', Prim (JNumber (Num 3)))]
   \<and> bound_texts (increment
      (example_platform (\<lambda>m. if m = ''<style>b{}</style><style>i{}</style><b>'' @ marker ''count'' @ ''</b>''
         then [Parsed None ''b{}'', Parsed None ''i{}'', Parsed None [], Parsed (Some ''count'') []]
         else []))
      (increment
        (example_platform (\<lambda>m. if m = ''<style>b{}</style><style>i{}</style><b>'' @ marker ''count'' @ ''</b>''
           then [Parsed None ''b{}'', Parsed None ''i{}'', Parsed None [], Parsed (Some ''count'') []]
           else []))
        (increment
          (example_platform (\<lambda>m. if m = ''<style>b{}</style><style>i{}</style><b>'' @ marker ''count'' @ ''</b>''
             then [Parsed None ''b{}'', Parsed None ''i{}'', Parsed None [], Parsed (Some ''count'') []]
             else []))
          (connectedCallback
            (example_platform (\<lambda>m. if m = ''<style>b{}</style><style>i{}</style><b>'' @ marker ''count'' @ ''</b>''
               then [Parsed None ''b{}'', Parsed None ''i{}'', Parsed None [], Parsed (Some ''count'') []]
               else []))
            (ExampleComponent
              (example_platform (\<lambda>m. if m = ''<style>b{}</style><style>i{}</style><b>'' @ marker ''count'' @ ''</b>''
                 then [Parsed None ''b{}'', Parsed None ''i{}'', Parsed None [], Parsed (Some ''count'') []]
                 else []))
              ''<b>{{count}}</b>'' ''b{}'' ''i{}''))))) ''count'' = [''3'']"
proof -
  define pf where "pf = example_platform
      (\<lambda>m. if m = ''<style>b{}</style><style>i{}</style><b>'' @ marker ''count'' @ ''</b>''
         then [Parsed None ''b{}'', Parsed None ''i{}'', Parsed None [], Parsed (Some ''count'') []]
         else [])"
  let ?c0 = "ExampleComponent pf ''<b>{{count}}</b>'' ''b{}'' ''i{}''"
  have one: "length (filter (\<lambda>n. bound_key n = Some ''count'')
      (parseHTML pf (rendered_markup pf ?c0))) = 1"
    unfolding pf_def by code_simp
  have c: "connectedCallback pf ?c0 = ?c0 \<or> connectedCallback pf ?c0 = connectedCallback pf ?c0"
    by simp
  let ?c3 = "increment pf (increment pf (increment pf (connectedCallback pf ?c0)))"
  note ex = example_three_increments [OF refl c refl]
  have three: "prop_get ?c3 ''count'' = Prim (JNumber (Num 3))" using ex by blast
  have all: "\<forall>t \<in> set (bound_texts ?c3 ''count''). t = ''3''" using ex by blast
  have "length (bound_texts ?c3 ''count'') = length (filter (\<lambda>n. bound_key n = Some ''count'')
      (parseHTML pf (rendered_markup pf ?c0)))"
    using ex by blast
  then have len: "length (bound_texts ?c3 ''count'') = 1" using one by simp
  with all have "bound_texts ?c3 ''count'' = [''3'']"
    by (cases "bound_texts ?c3 ''count''") auto
  moreover have "dispatched (effects ?c3) =
         [(''incremented'', Prim (JNumber (Num 1))), (''incremented'', Prim (JNumber (Num 2))),
          (''incremented'', Prim (JNumber (Num 3)))]" using ex by blast
  ultimately show ?thesis using three unfolding pf_def by blast
qed

text \<open>
  Claim C9. Removing the attribute of a prop that holds a number sets the prop to 0,
  and every element bound to the prop then shows \<^verbatim>\<open>0\<close>.
\<close>

theorem attribute_removed_number:
  assumes "typeof (prop_get c name) = TNumber" and "oldValue \<noteq> None"
  shows "prop_get (attributeChangedCallback pf name oldValue None c) name = Prim (JNumber (Num 0))
         \<and> (well_bound c \<and> initialized c \<longrightarrow>
              (\<forall>t \<in> set (bound_texts (attributeChangedCallback pf name oldValue None c) name).
                 t = ''0''))"
proof -
  from assms(1) have own: "name \<noteq> ''__proto__'' \<or> props c name \<noteq> None"
    using typeof_own [of c name] by simp
  have v: "prop_get (attributeChangedCallback pf name oldValue None c) name
      = Prim (JNumber (Num 0))"
    using attributeChanged_value [of oldValue None name c pf] assms own by simp
  moreover have "display pf (Prim (JNumber (Num 0))) = ''0''"
    by (simp add: display_def nat_digits_zero safe_def)
  ultimately show ?thesis
    using attributeChanged_shown [of oldValue None c _ pf name] assms(2) by auto
qed

theorem attribute_removed_number_witness:
  "typeof (prop_get (connectedCallback
        (example_platform (\<lambda>m. if m = marker ''n'' then [Parsed (Some ''n'') []] else []))
        (BaseComponent
           (example_platform (\<lambda>m. if m = marker ''n'' then [Parsed (Some ''n'') []] else []))
           (Some (TemplateFunction (\<lambda>locals. ''{{n}}'')))
           (Some [(''n'', JNumber (Num 5))]) None)) ''n'') = TNumber
   \<and> Some ''5'' \<noteq> None
   \<and> prop_get (attributeChangedCallback
        (example_platform (\<lambda>m. if m = marker ''n'' then [Parsed (Some ''n'') []] else []))
        ''n'' (Some ''5'') None
        (connectedCallback
           (example_platform (\<lambda>m. if m = marker ''n'' then [Parsed (Some ''n'') []] else []))
           (BaseComponent
              (example_platform (\<lambda>m. if m = marker ''n'' then [Parsed (Some ''n'') []] else []))
              (Some (TemplateFunction (\<lambda>locals. ''{{n}}'')))
              (Some [(''n'', JNumber (Num 5))]) None))) ''n'' = Prim (JNumber (Num 0))
   \<and> bound_texts (attributeChangedCallback
        (example_platform (\<lambda>m. if m = marker ''n'' then [Parsed (Some ''n'') []] else []))
        ''n'' (Some ''5'') None
        (connectedCallback
           (example_platform (\<lambda>m. if m = marker ''n'' then [Parsed (Some ''n'') []] else []))
           (BaseComponent
              (example_platform (\<lambda>m. if m = marker ''n'' then [Parsed (Some ''n'') []] else []))
              (Some (TemplateFunction (\<lambda>locals. ''{{n}}'')))
              (Some [(''n'', JNumber (Num 5))]) None))) ''n'' = [''0'']"
proof -
  define pf where
    "pf = example_platform (\<lambda>m. if m = marker ''n'' then [Parsed (Some ''n'') []] else [])"
  define c where "c = connectedCallback pf (BaseComponent pf
      (Some (TemplateFunction (\<lambda>locals. ''{{n}}''))) (Some [(''n'', JNumber (Num 5))]) None)"
  have h: "well_bound c \<and> initialized c" unfolding c_def pf_def by code_simp
  have ty: "typeof (prop_get c ''n'') = TNumber" unfolding c_def pf_def by code_simp
  have old: "Some ''5'' \<noteq> (None :: string option)" by simp
  let ?c' = "attributeChangedCallback pf ''n'' (Some ''5'') None c"
  note ar = attribute_removed_number [OF ty old, of pf]
  have v: "prop_get ?c' ''n'' = Prim (JNumber (Num 0))" using ar by blast
  have all: "\<forall>t \<in> set (bound_texts ?c' ''n''). t = ''0''" using ar h by blast
  have "length (bound_texts ?c' ''n'') = 1" unfolding c_def pf_def by code_simp
  with all have "bound_texts ?c' ''n'' = [''0'']"
    by (cases "bound_texts ?c' ''n''") auto
  with v ty old show ?thesis unfolding c_def pf_def by blast
qed

text \<open>
  Claim C10. The class comment of \<^verbatim>\<open>disconnectedCallback\<close> announces that the shadow root
  and the binding state are cleared when the component is removed from the page. The
  function is held in a field, not on the prototype, so the platform has no reaction to
  call and removing a component from the page changes nothing. A rendered component that
  is removed keeps its content, its binding table, its set of injected styles and its
  initialized flag, where a call of the function would have cleared them, and attaching
  it again calls the template function no second time.
\<close>

theorem removal_clears_nothing:
  "removedFromPage c = c
   \<and> initialized (removedFromPage (insertedIntoPage
      (example_platform (\<lambda>m. if m = ''<style>b{}</style>'' @ marker ''n''
         then [Parsed None ''b{}'', Parsed (Some ''n'') []] else []))
      (BaseComponent
         (example_platform (\<lambda>m. if m = ''<style>b{}</style>'' @ marker ''n''
            then [Parsed None ''b{}'', Parsed (Some ''n'') []] else []))
         (Some (TemplateFunction (\<lambda>locals. ''{{n}}'')))
         (Some [(''n'', JNumber (Num 5))]) (Some [''b{}'']))))
   \<and> content (removedFromPage (insertedIntoPage
      (example_platform (\<lambda>m. if m = ''<style>b{}</style>'' @ marker ''n''
         then [Parsed None ''b{}'', Parsed (Some ''n'') []] else []))
      (BaseComponent
         (example_platform (\<lambda>m. if m = ''<style>b{}</style>'' @ marker ''n''
            then [Parsed None ''b{}'', Parsed (Some ''n'') []] else []))
         (Some (TemplateFunction (\<lambda>locals. ''{{n}}'')))
         (Some [(''n'', JNumber (Num 5))]) (Some [''b{}'']))))
       = [Parsed None ''b{}'', Parsed (Some ''n'') ''5'']
   \<and> bindings (removedFromPage (insertedIntoPage
      (example_platform (\<lambda>m. if m = ''<style>b{}</style>'' @ marker ''n''
         then [Parsed None ''b{}'', Parsed (Some ''n'') []] else []))
      (BaseComponent
         (example_platform (\<lambda>m. if m = ''<style>b{}</style>'' @ marker ''n''
            then [Parsed None ''b{}'', Parsed (Some ''n'') []] else []))
         (Some (TemplateFunction (\<lambda>locals. ''{{n}}'')))
         (Some [(''n'', JNumber (Num 5))]) (Some [''b{}'']))))
       = [(''n'', [1])]
   \<and> ''b{}'' \<in> styleAdded (removedFromPage (insertedIntoPage
      (example_platform (\<lambda>m. if m = ''<style>b{}</style>'' @ marker ''n''
         then [Parsed None ''b{}'', Parsed (Some ''n'') []] else []))
      (BaseComponent
         (example_platform (\<lambda>m. if m = ''<style>b{}</style>'' @ marker ''n''
            then [Parsed None ''b{}'', Parsed (Some ''n'') []] else []))
         (Some (TemplateFunction (\<lambda>locals. ''{{n}}'')))
         (Some [(''n'', JNumber (Num 5))]) (Some [''b{}'']))))
   \<and> \<not> initialized (disconnectedCallback (insertedIntoPage
      (example_platform (\<lambda>m. if m = ''<style>b{}</style>'' @ marker ''n''
         then [Parsed None ''b{}'', Parsed (Some ''n'') []] else []))
      (BaseComponent
         (example_platform (\<lambda>m. if m = ''<style>b{}</style>'' @ marker ''n''
            then [Parsed None ''b{}'', Parsed (Some ''n'') []] else []))
         (Some (TemplateFunction (\<lambda>locals. ''{{n}}'')))
         (Some [(''n'', JNumber (Num 5))]) (Some [''b{}'']))))
   \<and> content (disconnectedCallback (insertedIntoPage
      (example_platform (\<lambda>m. if m = ''<style>b{}</style>'' @ marker ''n''
         then [Parsed None ''b{}'', Parsed (Some ''n'') []] else []))
      (BaseComponent
         (example_platform (\<lambda>m. if m = ''<style>b{}</style>'' @ marker ''n''
            then [Parsed None ''b{}'', Parsed (Some ''n'') []] else []))
         (Some (TemplateFunction (\<lambda>locals. ''{{n}}'')))
         (Some [(''n'', JNumber (Num 5))]) (Some [''b{}''])))) = []
   \<and> materializations (effects (insertedIntoPage
      (example_platform (\<lambda>m. if m = ''<style>b{}</style>'' @ marker ''n''
         then [Parsed None ''b{}'', Parsed (Some ''n'') []] else []))
      (removedFromPage (insertedIntoPage
        (example_platform (\<lambda>m. if m = ''<style>b{}</style>'' @ marker ''n''
           then [Parsed None ''b{}'', Parsed (Some ''n'') []] else []))
        (BaseComponent
           (example_platform (\<lambda>m. if m = ''<style>b{}</style>'' @ marker ''n''
              then [Parsed None ''b{}'', Parsed (Some ''n'') []] else []))
           (Some (TemplateFunction (\<lambda>locals. ''{{n}}'')))
           (Some [(''n'', JNumber (Num 5))]) (Some [''b{}''])))))) = 1"
proof -
  have general: "removedFromPage c = c"
    by (simp add: removedFromPage_def prototype_methods_def)
  have example: "initialized (removedFromPage (insertedIntoPage
      (example_platform (\<lambda>m. if m = ''<style>b{}</style>'' @ marker ''n''
         then [Parsed None ''b{}'', Parsed (Some ''n'') []] else []))
      (BaseComponent
         (example_platform (\<lambda>m. if m = ''<style>b{}</style>'' @ marker ''n''
            then [Parsed None ''b{}'', Parsed (Some ''n'') []] else []))
         (Some (TemplateFunction (\<lambda>locals. ''{{n}}'')))
         (Some [(''n'', JNumber (Num 5))]) (Some [''b{}'']))))
   \<and> content (removedFromPage (insertedIntoPage
      (example_platform (\<lambda>m. if m = ''<style>b{}</style>'' @ marker ''n''
         then [Parsed None ''b{}'', Parsed (Some ''n'') []] else []))
      (BaseComponent
         (example_platform (\<lambda>m. if m = ''<style>b{}</style>'' @ marker ''n''
            then [Parsed None ''b{}'', Parsed (Some ''n'') []] else []))
         (Some (TemplateFunction (\<lambda>locals. ''{{n}}'')))
         (Some [(''n'', JNumber (Num 5))]) (Some [''b{}'']))))
       = [Parsed None ''b{}'', Parsed (Some ''n'') ''5'']
   \<and> bindings (removedFromPage (insertedIntoPage
      (example_platform (\<lambda>m. if m = ''<style>b{}</style>'' @ marker ''n''
         then [Parsed None ''b{}'', Parsed (Some ''n'') []] else []))
      (BaseComponent
         (example_platform (\<lambda>m. if m = ''<style>b{}</style>'' @ marker ''n''
            then [Parsed None ''b{}'', Parsed (Some ''n'') []] else []))
         (Some (TemplateFunction (\<lambda>locals. ''{{n}}'')))
         (Some [(''n'', JNumber (Num 5))]) (Some [''b{}'']))))
       = [(''n'', [1])]
   \<and> ''b{}'' \<in> styleAdded (removedFromPage (insertedIntoPage
      (example_platform (\<lambda>m. if m = ''<style>b{}</style>'' @ marker ''n''
         then [Parsed None ''b{}'', Parsed (Some ''n'') []] else []))
      (BaseComponent
         (example_platform (\<lambda>m. if m = ''<style>b{}</style>'' @ marker ''n''
            then [Parsed None ''b{}'', Parsed (Some ''n'') []] else []))
         (Some (TemplateFunction (\<lambda>locals. ''{{n}}'')))
         (Some [(''n'', JNumber (Num 5))]) (Some [''b{}'']))))
   \<and> \<not> initialized (disconnectedCallback (insertedIntoPage
      (example_platform (\<lambda>m. if m = ''<style>b{}</style>'' @ marker ''n''
         then [Parsed None ''b{}'', Parsed (Some ''n'') []] else []))
      (BaseComponent
         (example_platform (\<lambda>m. if m = ''<style>b{}</style>'' @ marker ''n''
            then [Parsed None ''b{}'', Parsed (Some ''n'') []] else []))
         (Some (TemplateFunction (\<lambda>locals. ''{{n}}'')))
         (Some [(''n'', JNumber (Num 5))]) (Some [''b{}'']))))
   \<and> content (disconnectedCallback (insertedIntoPage
      (example_platform (\<lambda>m. if m = ''<style>b{}</style>'' @ marker ''n''
         then [Parsed None ''b{}'', Parsed (Some ''n'') []] else []))
      (BaseComponent
         (example_platform (\<lambda>m. if m = ''<style>b{}</style>'' @ marker ''n''
            then [Parsed None ''b{}'', Parsed (Some ''n'') []] else []))
         (Some (TemplateFunction (\<lambda>locals. ''{{n}}'')))
         (Some [(''n'', JNumber (Num 5))]) (Some [''b{}''])))) = []
   \<and> materializations (effects (insertedIntoPage
      (example_platform (\<lambda>m. if m = ''<style>b{}</style>'' @ marker ''n''
         then [Parsed None ''b{}'', Parsed (Some ''n'') []] else []))
      (removedFromPage (insertedIntoPage
        (example_platform (\<lambda>m. if m = ''<style>b{}</style>'' @ marker ''n''
           then [Parsed None ''b{}'', Parsed (Some ''n'') []] else []))
        (BaseComponent
           (example_platform (\<lambda>m. if m = ''<style>b{}</style>'' @ marker ''n''
              then [Parsed None ''b{}'', Parsed (Some ''n'') []] else []))
           (Some (TemplateFunction (\<lambda>locals. ''{{n}}'')))
           (Some [(''n'', JNumber (Num 5))]) (Some [''b{}''])))))) = 1"
    by code_simp
  from general example show ?thesis by (rule conjI)
qed

end
